theory Spec2Isabelle
  imports Main
begin

section \<open>GlobalProtect authentication (auth-globalprotect.c)\<close>

text \<open>
  A shallow embedding of the GlobalProtect login code of OpenConnect. Every C function
  returning an \<open>int\<close> status keeps that convention: \<open>0\<close> is success and a negative
  \<open>errno\<close> value is a failure; the data a function changes through pointers is returned
  next to the status. Memory allocation is taken to succeed, of zero bytes too (the
  \<open>-ENOMEM\<close> exits and \<open>buf_error\<close> are not modelled). Counters that are C \<open>int\<close>s are natural numbers: they
  count XML nodes of one response and cannot reach \<open>2^31\<close>.
\<close>

subsection \<open>Error numbers (errno.h)\<close>

definition EPERM :: int where "EPERM = 1"
definition ENOENT :: int where "ENOENT = 2"
definition EAGAIN :: int where "EAGAIN = 11"
definition EACCES :: int where "EACCES = 13"
definition EEXIST :: int where "EEXIST = 17"
definition EINVAL :: int where "EINVAL = 22"

lemmas errno_defs = EPERM_def ENOENT_def EAGAIN_def EACCES_def EEXIST_def EINVAL_def

subsection \<open>XML trees (libxml2) and the accessors of the repository\<close>

text \<open>
  An \<open>xmlNode\<close> with the fields the code reads: its type, its name, its attributes, the
  text \<open>xmlNodeGetContent\<close> returns for it (\<open>None\<close> for a null pointer) and its children.
  The \<open>next\<close> pointer of a node is the tail of the list of siblings it stands in.
\<close>

datatype xmlElementType = XML_ELEMENT_NODE | XML_TEXT_NODE | XML_COMMENT_NODE

datatype xmlNode =
  XmlNode (ntype: xmlElementType) (nname: string) (properties: "(string \<times> string) list")
    (content: "string option") (children: "xmlNode list")

text \<open>
  Modelled from the spec: \<open>xmlnode_is_named\<close> is one of the XML-parsing primitives the
  repository keeps outside auth-globalprotect.c; it compares the name of a node, of any
  type, with a string.
\<close>

definition xmlnode_is_named :: "xmlNode \<Rightarrow> string \<Rightarrow> bool" where
  "xmlnode_is_named xml_node name = (nname xml_node = name)"

text \<open>
  Modelled from the spec: \<open>xmlnode_get_val\<close> is another of these primitives. It fails
  with \<open>-EINVAL\<close> on a node of another name and with \<open>-ENOENT\<close> on a node without
  content, leaving the variable as it was; otherwise it stores the node's text in the
  variable and returns 0.
\<close>

definition xmlnode_get_val :: "xmlNode \<Rightarrow> string \<Rightarrow> string option \<Rightarrow> int \<times> string option" where
  "xmlnode_get_val xml_node name var =
     (if \<not> xmlnode_is_named xml_node name then (- EINVAL, var)
      else case content xml_node of
             None \<Rightarrow> (- ENOENT, var)
           | Some str \<Rightarrow> (0, Some str))"

text \<open>
  Modelled from the spec: \<open>xmlnode_get_prop\<close> reads an attribute the same way
  (\<open>-ENOENT\<close> when the node has no such attribute).
\<close>

definition xmlnode_get_prop :: "xmlNode \<Rightarrow> string \<Rightarrow> string option \<Rightarrow> int \<times> string option" where
  "xmlnode_get_prop xml_node name var =
     (case map_of (properties xml_node) name of
        None \<Rightarrow> (- ENOENT, var)
      | Some str \<Rightarrow> (0, Some str))"

text \<open>The loop \<open>while (xml_node && xml_node->type != XML_ELEMENT_NODE) xml_node = xml_node->next\<close>.\<close>

definition skip_non_elements :: "xmlNode list \<Rightarrow> xmlNode list" where
  "skip_non_elements xml_node = dropWhile (\<lambda>n. ntype n \<noteq> XML_ELEMENT_NODE) xml_node"

subsection \<open>Session state\<close>

text \<open>
  Modelled from the spec: an \<open>oc_text_buf\<close> filled by \<open>append_opt\<close> is an ordered
  urlencoded key=value sequence; it is kept as the sequence of its entries, and
  \<open>append_opt\<close> adds one entry at the end.
\<close>

type_synonym oc_text_buf = "(string \<times> string) list"

definition append_opt :: "oc_text_buf \<Rightarrow> string \<Rightarrow> string \<Rightarrow> oc_text_buf" where
  "append_opt body opt_name val = body @ [(opt_name, val)]"

text \<open>
  The auth form (\<open>struct oc_auth_form\<close>, \<open>struct oc_form_opt\<close>, \<open>struct oc_choice\<close>).
  The list \<open>opts\<close> is the chain of \<open>next\<close> pointers from \<open>form->opts\<close>. The types are the
  values of openconnect.h; \<open>OC_FORM_OPT_UNSET\<close> is the zero \<open>calloc\<close> leaves in a new field.
\<close>

datatype oc_form_opt_type =
    OC_FORM_OPT_UNSET
  | OC_FORM_OPT_TEXT
  | OC_FORM_OPT_PASSWORD
  | OC_FORM_OPT_SELECT
  | OC_FORM_OPT_HIDDEN
  | OC_FORM_OPT_TOKEN

record oc_choice =
  choice_name :: "string option"
  choice_label :: "string option"

record oc_form_opt =
  opt_type :: oc_form_opt_type
  opt_name :: string
  opt_label :: string
  opt_value :: "string option"
  opt_choices :: "oc_choice list"

record oc_auth_form =
  message :: string
  auth_id :: string
  action :: "string option"
  opts :: "oc_form_opt list"

text \<open>
  What \<open>vpn_progress\<close> is asked to print: one constructor for each message of the file,
  with the arguments of its format string (a null pointer given to \<open>%s\<close> is \<open>None\<close>).
\<close>

datatype progress_msg =
    Unexpected_argument nat string
  | Unexpected_value "string option" "string option" string
  | Empty_or_missing "string option"
  | Login_returned "string option" string
  | Please_report nat nat
  | Saml_not_base64 string
  | Saml_using_portal_userauthcookie
  | Saml_using_portal_prelogonuserauthcookie
  | Saml_field_specified string "string option"
  | Saml_required_via "string option" "string option"
  | Saml_required_external "string option"
  | Saml_specify_field
  | Prelogin_form oc_auth_form
  | Challenge_form oc_auth_form string
  | Gateways_available nat
  | Gateway_server "string option" "string option"
  | No_gateway_servers
  | Hip_interval_ignored int int
  | Hip_interval_set int
  | Tokencode_failed
  | Neither_portal_nor_gateway
  | Logout_failed
  | Logout_successful

text \<open>\<open>struct login_context\<close>, the session context every callback receives as \<open>cb_data\<close>.\<close>

record login_context =
  username :: "string option"
  alt_secret :: "string option"
  portal_userauthcookie :: "string option"
  portal_prelogonuserauthcookie :: "string option"
  form :: "oc_auth_form option"

text \<open>
  The fields of \<open>struct openconnect_info\<close> the code reads or writes. The callback
  \<open>write_new_config\<close> is \<open>None\<close> when none is registered and otherwise the status it
  returns; \<open>trojan_interval\<close> is the HIP report interval in seconds, 0 when none is set.
  Modelled from the spec: \<open>has_token_generator\<close> is the pluggable one-time-password
  support that \<open>can_gen_tokencode\<close> asks, a question of the session, the form and the
  field answered by a truth value.
\<close>

record openconnect_info =
  cookie :: "oc_text_buf option"
  localname :: string
  hostname :: string
  urlpath :: "string option"
  authgroup :: "string option"
  redirect_url :: "string option"
  token_bypassed :: bool
  write_new_config :: "int option"
  trojan_interval :: int
  has_token_generator :: "oc_auth_form \<Rightarrow> oc_form_opt \<Rightarrow> bool"

subsection \<open>The schema of the gateway login response\<close>

record gp_login_arg =
  arg_opt :: "string option"
  arg_save :: bool
  arg_show :: bool
  arg_warn_missing :: bool
  arg_err_missing :: bool
  arg_unknown :: bool
  arg_check :: "string option"

text \<open>A designated initializer leaves every field it does not name zero.\<close>

definition zero_arg :: gp_login_arg where
  "zero_arg = \<lparr>arg_opt = None, arg_save = False, arg_show = False, arg_warn_missing = False,
     arg_err_missing = False, arg_unknown = False, arg_check = None\<rparr>"

definition gp_login_args :: "gp_login_arg list" where
  "gp_login_args =
    [ zero_arg\<lparr>arg_unknown := True\<rparr>,
      zero_arg\<lparr>arg_opt := Some ''authcookie'', arg_save := True, arg_err_missing := True\<rparr>,
      zero_arg\<lparr>arg_opt := Some ''persistent-cookie'', arg_warn_missing := True\<rparr>,
      zero_arg\<lparr>arg_opt := Some ''portal'', arg_save := True, arg_warn_missing := True\<rparr>,
      zero_arg\<lparr>arg_opt := Some ''user'', arg_save := True, arg_err_missing := True\<rparr>,
      zero_arg\<lparr>arg_opt := Some ''authentication-source'', arg_show := True\<rparr>,
      zero_arg\<lparr>arg_opt := Some ''configuration'', arg_warn_missing := True\<rparr>,
      zero_arg\<lparr>arg_opt := Some ''domain'', arg_save := True, arg_warn_missing := True\<rparr>,
      zero_arg\<lparr>arg_unknown := True\<rparr>,
      zero_arg\<lparr>arg_unknown := True\<rparr>,
      zero_arg\<lparr>arg_unknown := True\<rparr>,
      zero_arg\<lparr>arg_unknown := True\<rparr>,
      zero_arg\<lparr>arg_opt := Some ''connection-type'', arg_err_missing := True,
        arg_check := Some ''tunnel''\<rparr>,
      zero_arg\<lparr>arg_opt := Some ''password-expiration-days'', arg_show := True\<rparr>,
      zero_arg\<lparr>arg_opt := Some ''clientVer'', arg_err_missing := True, arg_check := Some ''4100''\<rparr>,
      zero_arg\<lparr>arg_opt := Some ''preferred-ip'', arg_save := True\<rparr>,
      zero_arg\<lparr>arg_opt := Some ''portal-userauthcookie'', arg_show := True\<rparr>,
      zero_arg\<lparr>arg_opt := Some ''portal-prelogonuserauthcookie'', arg_show := True\<rparr>,
      zero_arg\<lparr>arg_opt := Some ''preferred-ipv6'', arg_save := True\<rparr>,
      zero_arg\<lparr>arg_opt := Some ''usually-equals-4'', arg_show := True\<rparr>,
      zero_arg\<lparr>arg_opt := Some ''usually-equals-unknown'', arg_show := True\<rparr> ]"

definition gp_login_nargs :: nat where
  "gp_login_nargs = length gp_login_args"

text \<open>
  Reading \<open>gp_login_args[i]\<close>. C does not check the index; the model does, and an index
  outside the table is the result \<open>None\<close>, which the loop below turns into \<open>Fault\<close>.
\<close>

definition gp_login_args_at :: "nat \<Rightarrow> gp_login_arg option" where
  "gp_login_args_at i = (if i < length gp_login_args then Some (gp_login_args ! i) else None)"

subsection \<open>parse\_login\_xml\<close>

text \<open>The locals of \<open>parse_login_xml\<close> that the loop updates, and what it has printed.\<close>

record login_walk =
  cookie_buf :: oc_text_buf
  unknown_args :: nat
  fatal_args :: nat
  printed :: "progress_msg list"

definition walk_start :: login_walk where
  "walk_start = \<lparr>cookie_buf = [], unknown_args = 0, fatal_args = 0, printed = []\<rparr>"

text \<open>
  Lines 323 to 336: the text of an \<open>argument\<close> element becomes the value of the position.
  An empty text, \<open>(null)\<close> and \<open>-1\<close> give the null value; the value of a saved field is
  URL-decoded. \<open>urldecode_inplace\<close> is not in this file and is a parameter.
\<close>

definition arg_value :: "(string \<Rightarrow> string) \<Rightarrow> gp_login_arg \<Rightarrow> string \<Rightarrow> string option" where
  "arg_value urldecode arg str =
     (if str = [] \<or> str = ''(null)'' \<or> str = ''-1'' then None
      else if arg_save arg then Some (urldecode str)
      else Some str)"

text \<open>Lines 341 to 365: one position is classified and, if it is saved, appended.\<close>

definition classify :: "gp_login_arg \<Rightarrow> nat \<Rightarrow> string option \<Rightarrow> login_walk \<Rightarrow> login_walk" where
  "classify arg argn val w =
     (if arg_unknown arg \<and> val \<noteq> None then
        w\<lparr>unknown_args := unknown_args w + 1,
          printed := printed w @ [Unexpected_argument argn (the val)]\<rparr>
      else if arg_check arg \<noteq> None \<and> (val = None \<or> val \<noteq> arg_check arg) then
        w\<lparr>unknown_args := unknown_args w + 1,
          fatal_args := fatal_args w + (if arg_err_missing arg then 1 else 0),
          printed := printed w @ [Unexpected_value (arg_opt arg) val (the (arg_check arg))]\<rparr>
      else if (arg_err_missing arg \<or> arg_warn_missing arg) \<and> val = None then
        w\<lparr>unknown_args := unknown_args w + 1,
          fatal_args := fatal_args w + (if arg_err_missing arg then 1 else 0),
          printed := printed w @ [Empty_or_missing (arg_opt arg)]\<rparr>
      else if val \<noteq> None \<and> arg_show arg then
        w\<lparr>printed := printed w @ [Login_returned (arg_opt arg) (the val)]\<rparr>
      else w)"

definition save_arg :: "gp_login_arg \<Rightarrow> string option \<Rightarrow> login_walk \<Rightarrow> login_walk" where
  "save_arg arg val w =
     (case (val, arg_save arg, arg_opt arg) of
        (Some v, True, Some name) \<Rightarrow> w\<lparr>cookie_buf := append_opt (cookie_buf w) name v\<rparr>
      | _ \<Rightarrow> w)"

definition process_arg :: "gp_login_arg \<Rightarrow> nat \<Rightarrow> string option \<Rightarrow> login_walk \<Rightarrow> login_walk" where
  "process_arg arg argn val w = save_arg arg val (classify arg argn val w)"

text \<open>
  The loop of lines 314 to 369, from position \<open>argn\<close> with \<open>xml_node\<close> and its later
  siblings still to read. It ends by running off both lists (\<open>Finished\<close>), by
  \<open>goto err_out\<close>, or by reading outside the table (\<open>Fault\<close>).
\<close>

datatype loop_exit = Finished login_walk | Goto_err_out login_walk | Fault

function login_args_loop :: "(string \<Rightarrow> string) \<Rightarrow> nat \<Rightarrow> xmlNode list \<Rightarrow> login_walk \<Rightarrow> loop_exit" where
  "login_args_loop urldecode argn xml_node w =
     (if argn < gp_login_nargs \<or> xml_node \<noteq> [] then
        (case gp_login_args_at (if argn < gp_login_nargs then argn else 0) of
           None \<Rightarrow> Fault
         | Some arg \<Rightarrow>
             (case skip_non_elements xml_node of
                [] \<Rightarrow> login_args_loop urldecode (Suc argn) [] (process_arg arg argn None w)
              | x # nxt \<Rightarrow>
                  (case xmlnode_get_val x ''argument'' None of
                     (r, Some str) \<Rightarrow>
                       if r = 0 then
                         login_args_loop urldecode (Suc argn) nxt
                           (process_arg arg argn (arg_value urldecode arg str) w)
                       else Goto_err_out w
                   | (r, None) \<Rightarrow> Goto_err_out w)))
      else Finished w)"
  by pat_completeness auto
termination
proof (relation "measure (\<lambda>(urldecode, argn, xml_node, w). (gp_login_nargs - argn) + length xml_node)")
  show "wf (measure (\<lambda>(urldecode, argn, xml_node, w). (gp_login_nargs - argn) + length xml_node))"
    by simp
next
  fix urldecode :: "string \<Rightarrow> string" and argn :: nat and xml_node :: "xmlNode list"
    and w :: login_walk and x2 :: gp_login_arg
  assume "argn < gp_login_nargs \<or> xml_node \<noteq> []"
  then show "((urldecode, Suc argn, [], process_arg x2 argn None w), urldecode, argn, xml_node, w)
    \<in> measure (\<lambda>(urldecode, argn, xml_node, w). (gp_login_nargs - argn) + length xml_node)"
    by (cases xml_node) auto
next
  fix urldecode :: "string \<Rightarrow> string" and argn :: nat and xml_node :: "xmlNode list"
    and w :: login_walk and x2 :: gp_login_arg and x21 :: xmlNode and x22 :: "xmlNode list"
    and x y and x2a :: string
  assume "skip_non_elements xml_node = x21 # x22"
  then have "length (x21 # x22) \<le> length xml_node"
    unfolding skip_non_elements_def by (metis length_dropWhile_le)
  then show "((urldecode, Suc argn, x22, process_arg x2 argn (arg_value urldecode x2 x2a) w),
      urldecode, argn, xml_node, w)
    \<in> measure (\<lambda>(urldecode, argn, xml_node, w). (gp_login_nargs - argn) + length xml_node)"
    by simp
qed

declare login_args_loop.simps [simp del]

text \<open>
  The whole callback. \<open>cb_data\<close> is the session context; the result is the status, the
  session, the context and what was printed. The cookie buffer is handed to
  \<open>vpninfo->cookie\<close> only when no argument was fatal. (The loop never ends in \<open>Fault\<close>,
  see \<open>loop_never_faults\<close> below; the case is there for the definition to be total.)
\<close>

definition login_finish ::
  "openconnect_info \<Rightarrow> login_context \<Rightarrow> login_walk
     \<Rightarrow> int \<times> openconnect_info \<times> login_context \<times> progress_msg list" where
  "login_finish vpninfo cb_data w =
     (let cookie1 = append_opt (cookie_buf w) ''computer'' (localname vpninfo);
          out = printed w @
            (if unknown_args w \<noteq> 0 then [Please_report (unknown_args w) (fatal_args w)] else [])
      in if fatal_args w \<noteq> 0 then (- EPERM, vpninfo, cb_data, out)
         else (0, vpninfo\<lparr>cookie := Some cookie1\<rparr>, cb_data, out))"

definition parse_login_xml ::
  "(string \<Rightarrow> string) \<Rightarrow> openconnect_info \<Rightarrow> xmlNode \<Rightarrow> login_context
     \<Rightarrow> int \<times> openconnect_info \<times> login_context \<times> progress_msg list" where
  "parse_login_xml urldecode vpninfo xml_node cb_data =
     (if \<not> xmlnode_is_named xml_node ''jnlp'' then (- EINVAL, vpninfo, cb_data, [])
      else case skip_non_elements (children xml_node) of
        [] \<Rightarrow> (- EINVAL, vpninfo, cb_data, [])
      | app # siblings \<Rightarrow>
          if \<not> xmlnode_is_named app ''application-desc'' then (- EINVAL, vpninfo, cb_data, [])
          else (case login_args_loop urldecode 0 (children app) walk_start of
                  Finished w \<Rightarrow> login_finish vpninfo cb_data w
                | Goto_err_out w \<Rightarrow> (- EINVAL, vpninfo, cb_data, printed w)
                | Fault \<Rightarrow> (- EINVAL, vpninfo, cb_data, [])))"


subsection \<open>The walk, position by position\<close>

text \<open>
  The argument list of a sequence of sibling nodes: the texts of its \<open>argument\<close>
  elements in document order, nodes that are not elements left out; \<open>None\<close> when an
  element is not an \<open>argument\<close> or has no content.
\<close>

fun element_args :: "xmlNode list \<Rightarrow> string list option" where
  "element_args [] = Some []"
| "element_args (x # xs) =
     (if ntype x \<noteq> XML_ELEMENT_NODE then element_args xs
      else if nname x = ''argument'' then
        (case content x of
           None \<Rightarrow> None
         | Some str \<Rightarrow> map_option ((#) str) (element_args xs))
      else None)"

text \<open>
  The walk in the words of the specification, to compare the loop with: the schema table
  and the argument list are walked in lock-step by position, past the end of whichever
  is shorter. The entry of a position past the table is entry 0; the value of a position
  past the list is the null value.
\<close>

definition policy_at :: "nat \<Rightarrow> gp_login_arg" where
  "policy_at i = gp_login_args ! (if i < gp_login_nargs then i else 0)"

definition supplied :: "(string \<Rightarrow> string) \<Rightarrow> string list \<Rightarrow> nat \<Rightarrow> string option" where
  "supplied urldecode vals i =
     (if i < length vals then arg_value urldecode (policy_at i) (vals ! i) else None)"

definition lockstep_step :: "(string \<Rightarrow> string) \<Rightarrow> string list \<Rightarrow> login_walk \<Rightarrow> nat \<Rightarrow> login_walk" where
  "lockstep_step urldecode vals w i = process_arg (policy_at i) i (supplied urldecode vals i) w"

definition lockstep_walk :: "(string \<Rightarrow> string) \<Rightarrow> string list \<Rightarrow> login_walk \<Rightarrow> login_walk" where
  "lockstep_walk urldecode vals w =
     foldl (lockstep_step urldecode vals) w [0 ..< max gp_login_nargs (length vals)]"

lemma gp_login_nargs_21: "gp_login_nargs = 21"
  by (simp add: gp_login_nargs_def gp_login_args_def)

lemma gp_login_args_at_policy:
  "gp_login_args_at (if argn < gp_login_nargs then argn else 0) = Some (policy_at argn)"
  by (simp add: gp_login_args_at_def policy_at_def gp_login_nargs_21 gp_login_nargs_def[symmetric])

lemma element_args_skip: "element_args (skip_non_elements xs) = element_args xs"
  by (induction xs) (auto simp: skip_non_elements_def)

lemma skip_Cons_element: "skip_non_elements xs = x # nxt \<Longrightarrow> ntype x = XML_ELEMENT_NODE"
  unfolding skip_non_elements_def by (metis (mono_tags, lifting) hd_dropWhile list.sel(1) list.distinct(1))

lemma policy_surplus: "gp_login_nargs \<le> i \<Longrightarrow> policy_at i = zero_arg\<lparr>arg_unknown := True\<rparr>"
  by (simp add: policy_at_def gp_login_args_def)

lemma process_surplus_None: "gp_login_nargs \<le> i \<Longrightarrow> process_arg (policy_at i) i None w = w"
  by (simp add: policy_surplus process_arg_def classify_def save_arg_def zero_arg_def)

lemma loop_lockstep:
  "element_args xs = Some (drop argn vals) \<Longrightarrow>
   login_args_loop urldecode argn xs w =
     Finished (foldl (lockstep_step urldecode vals) w [argn ..< max gp_login_nargs (length vals)])"
proof (induction urldecode argn xs w rule: login_args_loop.induct)
  case (1 urldecode argn xml_node w)
  let ?f = "lockstep_step urldecode vals"
  let ?m = "max gp_login_nargs (length vals)"
  show ?case
  proof (cases "argn < gp_login_nargs \<or> xml_node \<noteq> []")
    case False
    then have a: "gp_login_nargs \<le> argn" and "xml_node = []" by auto
    with "1.prems" have "length vals \<le> argn" by simp
    with a have e: "[argn ..< ?m] = []" by simp
    have lp: "login_args_loop urldecode argn xml_node w = Finished w"
      using False by (subst login_args_loop.simps) simp
    show ?thesis unfolding lp e by simp
  next
    case True
    note at = gp_login_args_at_policy[of argn]
    show ?thesis
    proof (cases "skip_non_elements xml_node")
      case Nil
      with "1.prems" have "drop argn vals = []"
        using element_args_skip[of xml_node] by simp
      then have len: "length vals \<le> argn" by simp
      then have dr: "element_args [] = Some (drop (Suc argn) vals)" by simp
      have sup: "supplied urldecode vals argn = None" using len by (simp add: supplied_def)
      have ih: "login_args_loop urldecode (Suc argn) [] (process_arg (policy_at argn) argn None w)
          = Finished (foldl ?f (process_arg (policy_at argn) argn None w) [Suc argn ..< ?m])"
        using "1.IH"(1)[OF True at Nil dr] .
      have lp: "login_args_loop urldecode argn xml_node w =
          login_args_loop urldecode (Suc argn) [] (process_arg (policy_at argn) argn None w)"
        using True at Nil by (subst login_args_loop.simps) simp
      show ?thesis
      proof (cases "argn < gp_login_nargs")
        case lt: True
        then have e: "[argn ..< ?m] = argn # [Suc argn ..< ?m]"
          by (simp add: upt_conv_Cons)
        show ?thesis unfolding lp ih e using sup by (simp add: lockstep_step_def[of urldecode vals w argn])
      next
        case ge: False
        then have e: "[argn ..< ?m] = []" "[Suc argn ..< ?m] = []" using len by auto
        have p: "process_arg (policy_at argn) argn None w = w"
          using ge by (simp add: process_surplus_None)
        show ?thesis unfolding lp e using ih e p by simp
      qed
    next
      case (Cons x nxt)
      then have el: "ntype x = XML_ELEMENT_NODE" by (rule skip_Cons_element)
      from "1.prems" have ea: "element_args (x # nxt) = Some (drop argn vals)"
        using element_args_skip[of xml_node] Cons by simp
      then obtain str where nm: "nname x = ''argument''" and ct: "content x = Some str"
        and rest: "map_option ((#) str) (element_args nxt) = Some (drop argn vals)"
        using el by (auto split: if_splits option.splits)
      then obtain vs where vs: "element_args nxt = Some vs" "drop argn vals = str # vs"
        by auto
      have lt: "argn < length vals"
        using vs(2) by (metis drop_all list.distinct(1) not_le_imp_less)
      have nth: "vals ! argn = str" and dr0: "drop (Suc argn) vals = vs"
        using vs(2) lt by (simp_all add: Cons_nth_drop_Suc[symmetric])
      have dr: "element_args nxt = Some (drop (Suc argn) vals)"
        using vs(1) dr0 by simp
      have gv: "xmlnode_get_val x ''argument'' None = (0, Some str)"
        by (simp add: xmlnode_get_val_def xmlnode_is_named_def nm ct)
      have sup: "supplied urldecode vals argn = arg_value urldecode (policy_at argn) str"
        using lt nth by (simp add: supplied_def)
      have ih: "login_args_loop urldecode (Suc argn) nxt
            (process_arg (policy_at argn) argn (arg_value urldecode (policy_at argn) str) w)
          = Finished (foldl ?f (process_arg (policy_at argn) argn (arg_value urldecode (policy_at argn) str) w)
              [Suc argn ..< ?m])"
        using "1.IH"(2)[OF True at Cons gv[symmetric] refl _ dr] by simp
      have e: "[argn ..< ?m] = argn # [Suc argn ..< ?m]"
        using lt by (simp add: upt_conv_Cons)
      have lp: "login_args_loop urldecode argn xml_node w =
          login_args_loop urldecode (Suc argn) nxt
            (process_arg (policy_at argn) argn (arg_value urldecode (policy_at argn) str) w)"
        using True at Cons gv by (subst login_args_loop.simps) simp
      show ?thesis unfolding lp ih e using sup by (simp add: lockstep_step_def[of urldecode vals w argn])
    qed
  qed
qed

lemma loop_never_faults: "login_args_loop urldecode argn xs w \<noteq> Fault"
proof (induction urldecode argn xs w rule: login_args_loop.induct)
  case (1 urldecode argn xml_node w)
  note at = gp_login_args_at_policy[of argn]
  show ?case
  proof (cases "argn < gp_login_nargs \<or> xml_node \<noteq> []")
    case False
    then show ?thesis by (subst login_args_loop.simps) simp
  next
    case True
    show ?thesis
    proof (cases "skip_non_elements xml_node")
      case Nil
      have lp: "login_args_loop urldecode argn xml_node w =
          login_args_loop urldecode (Suc argn) [] (process_arg (policy_at argn) argn None w)"
        using True at Nil by (subst login_args_loop.simps) simp
      show ?thesis unfolding lp using "1.IH"(1)[OF True at Nil] .
    next
      case (Cons x nxt)
      obtain r v where gv: "xmlnode_get_val x ''argument'' None = (r, v)" by force
      show ?thesis
      proof (cases "r = 0 \<and> v \<noteq> None")
        case ok: True
        then obtain str where v: "v = Some str" by auto
        have lp: "login_args_loop urldecode argn xml_node w =
          login_args_loop urldecode (Suc argn) nxt
            (process_arg (policy_at argn) argn (arg_value urldecode (policy_at argn) str) w)"
          using True at Cons gv v ok by (subst login_args_loop.simps) simp
        show ?thesis unfolding lp
          using "1.IH"(2)[OF True at Cons gv[symmetric, unfolded v] refl] ok by simp
      next
        case bad: False
        have lp: "login_args_loop urldecode argn xml_node w = Goto_err_out w"
          using True at Cons gv bad by (subst login_args_loop.simps) (auto split: option.splits)
        show ?thesis unfolding lp by simp
      qed
    qed
  qed
qed


text \<open>
  Also in the words of the specification: the values that count as absent; the fields a
  cookie is made of, the saved and present ones in schema order with their values
  URL-decoded; the violation of an entry that is an error when missing; and the argument
  list of a whole login response, under \<open>jnlp\<close> and \<open>application-desc\<close>.
\<close>

definition absent :: "string \<Rightarrow> bool" where
  "absent str = (str = [] \<or> str = ''(null)'' \<or> str = ''-1'')"

definition saved_fields :: "(string \<Rightarrow> string) \<Rightarrow> string list \<Rightarrow> oc_text_buf" where
  "saved_fields urldecode vals =
     [(the (arg_opt arg), urldecode str). (arg, str) \<leftarrow> zip gp_login_args vals,
        arg_save arg, \<not> absent str]"

definition violation :: "gp_login_arg \<Rightarrow> string option \<Rightarrow> bool" where
  "violation arg val =
     (arg_err_missing arg \<and>
        (case arg_check arg of Some expected \<Rightarrow> val \<noteq> Some expected | None \<Rightarrow> val = None))"

definition login_arguments :: "xmlNode \<Rightarrow> string list option" where
  "login_arguments root =
     (if nname root = ''jnlp'' then
        (case skip_non_elements (children root) of
           [] \<Rightarrow> None
         | app # siblings \<Rightarrow>
             if nname app = ''application-desc'' then element_args (children app) else None)
      else None)"

lemma policy_at_nth: "i < gp_login_nargs \<Longrightarrow> policy_at i = gp_login_args ! i"
  by (simp add: policy_at_def)

lemma policy_at_in_table: "policy_at i \<in> set gp_login_args"
proof -
  have "(if i < gp_login_nargs then i else 0) < length gp_login_args"
    using gp_login_nargs_21 by (simp add: gp_login_nargs_def)
  then show ?thesis unfolding policy_at_def by (rule nth_mem)
qed

text \<open>Facts about one step, for every entry of the table.\<close>

lemma table_shape:
  "list_all (\<lambda>arg. (arg_unknown arg \<longrightarrow> \<not> arg_err_missing arg) \<and>
      (arg_save arg \<longrightarrow> arg_opt arg \<noteq> None)) gp_login_args"
  by (simp add: gp_login_args_def zero_arg_def)

lemma table_unknown_not_fatal:
  "arg \<in> set gp_login_args \<Longrightarrow> arg_unknown arg \<Longrightarrow> \<not> arg_err_missing arg"
  using table_shape by (simp add: list_all_iff)

lemma table_save_named:
  "arg \<in> set gp_login_args \<Longrightarrow> arg_save arg \<Longrightarrow> \<exists>name. arg_opt arg = Some name"
  using table_shape by (simp add: list_all_iff)

lemma fatal_save_arg: "fatal_args (save_arg arg val w) = fatal_args w"
  by (simp add: save_arg_def split: option.split bool.split)

lemma printed_save_arg: "printed (save_arg arg val w) = printed w"
  by (simp add: save_arg_def split: option.split bool.split)

lemma cookie_classify: "cookie_buf (classify arg i val w) = cookie_buf w"
  by (simp add: classify_def)

lemma table_fatal:
  assumes "arg \<in> set gp_login_args"
  shows "fatal_args (process_arg arg i val w) = fatal_args w + (if violation arg val then 1 else 0)"
proof (cases "arg_unknown arg \<and> val \<noteq> None")
  case True
  then have "\<not> arg_err_missing arg" using assms table_unknown_not_fatal by blast
  with True show ?thesis
    by (simp add: process_arg_def fatal_save_arg classify_def violation_def)
next
  case False
  then show ?thesis
    by (cases "arg_check arg"; cases val)
       (simp_all add: process_arg_def fatal_save_arg classify_def violation_def)
qed

lemma table_cookie:
  assumes "arg \<in> set gp_login_args"
  shows "cookie_buf (process_arg arg i val w) =
     cookie_buf w @ (case val of None \<Rightarrow> []
       | Some v \<Rightarrow> if arg_save arg then [(the (arg_opt arg), v)] else [])"
proof (cases "arg_save arg")
  case True
  then obtain name where "arg_opt arg = Some name" using assms table_save_named by blast
  with True show ?thesis
    by (cases val) (simp_all add: process_arg_def save_arg_def cookie_classify append_opt_def)
next
  case False
  then show ?thesis
    by (cases val) (simp_all add: process_arg_def save_arg_def cookie_classify)
qed

lemma printed_mono: "set (printed w) \<subseteq> set (printed (process_arg arg i val w))"
  by (simp add: process_arg_def printed_save_arg classify_def subset_iff)


subsection \<open>Folding the steps\<close>

definition saved_at :: "(string \<Rightarrow> string) \<Rightarrow> string list \<Rightarrow> nat \<Rightarrow> oc_text_buf" where
  "saved_at urldecode vals i =
     (case supplied urldecode vals i of
        None \<Rightarrow> []
      | Some v \<Rightarrow> if arg_save (policy_at i) then [(the (arg_opt (policy_at i)), v)] else [])"

lemma fold_fatal:
  "fatal_args (foldl (lockstep_step urldecode vals) w ps) = 0 \<longleftrightarrow>
     fatal_args w = 0 \<and> (\<forall>i \<in> set ps. \<not> violation (policy_at i) (supplied urldecode vals i))"
  by (induction ps arbitrary: w)
     (auto simp: lockstep_step_def table_fatal[OF policy_at_in_table])

lemma fold_cookie:
  "cookie_buf (foldl (lockstep_step urldecode vals) w ps) =
     cookie_buf w @ concat (map (saved_at urldecode vals) ps)"
  by (induction ps arbitrary: w)
     (simp_all add: lockstep_step_def table_cookie[OF policy_at_in_table] saved_at_def)

lemma fold_printed_mono:
  "set (printed w) \<subseteq> set (printed (foldl (lockstep_step urldecode vals) w ps))"
proof (induction ps arbitrary: w)
  case Nil
  show ?case by simp
next
  case (Cons p ps)
  have "set (printed w) \<subseteq> set (printed (lockstep_step urldecode vals w p))"
    unfolding lockstep_step_def by (rule printed_mono)
  also have "\<dots> \<subseteq> set (printed (foldl (lockstep_step urldecode vals) (lockstep_step urldecode vals w p) ps))"
    by (rule Cons.IH)
  finally show ?case by simp
qed

lemma fold_printed_mem:
  assumes "i \<in> set ps" and "\<And>w. m \<in> set (printed (lockstep_step urldecode vals w i))"
  shows "m \<in> set (printed (foldl (lockstep_step urldecode vals) w ps))"
  using assms(1)
proof (induction ps arbitrary: w)
  case Nil
  then show ?case by simp
next
  case (Cons p ps)
  show ?case
  proof (cases "i = p")
    case True
    then have "m \<in> set (printed (lockstep_step urldecode vals w p))" using assms(2) by simp
    then show ?thesis using fold_printed_mono[of "lockstep_step urldecode vals w p" urldecode vals ps]
      by auto
  next
    case False
    with Cons.prems have "i \<in> set ps" by simp
    then show ?thesis using Cons.IH by simp
  qed
qed

lemma zip_as_map_nth:
  "zip xs ys = map (\<lambda>i. (xs ! i, ys ! i)) [0 ..< min (length xs) (length ys)]"
  by (rule nth_equalityI) auto

lemma saved_at_in_range:
  assumes "i < gp_login_nargs" "i < length vals"
  shows "saved_at urldecode vals i =
    (if arg_save (gp_login_args ! i) then
       if \<not> absent (vals ! i) then [(the (arg_opt (gp_login_args ! i)), urldecode (vals ! i))] else []
     else [])"
  using assms by (simp add: saved_at_def supplied_def policy_at_nth arg_value_def absent_def)

lemma saved_at_out_of_range:
  assumes "gp_login_nargs \<le> i \<or> length vals \<le> i"
  shows "saved_at urldecode vals i = []"
proof (cases "length vals \<le> i")
  case True
  then show ?thesis by (simp add: saved_at_def supplied_def)
next
  case False
  with assms have "gp_login_nargs \<le> i" by simp
  then have "\<not> arg_save (policy_at i)" by (simp add: policy_surplus zero_arg_def)
  then show ?thesis by (simp add: saved_at_def split: option.split)
qed

lemma concat_saved_at:
  "concat (map (saved_at urldecode vals) [0 ..< max gp_login_nargs (length vals)]) =
     saved_fields urldecode vals"
proof -
  let ?lo = "min gp_login_nargs (length vals)" and ?hi = "max gp_login_nargs (length vals)"
  have split: "[0 ..< ?hi] = [0 ..< ?lo] @ [?lo ..< ?hi]"
    by (metis le_add1 le_add_diff_inverse max.cobounded1 min.cobounded1 le_trans upt_add_eq_append zero_le)
  have hi: "concat (map (saved_at urldecode vals) [?lo ..< ?hi]) = []"
    using saved_at_out_of_range by (auto simp: min_def split: if_splits)
  have lo: "map (saved_at urldecode vals) [0 ..< ?lo] =
      map (\<lambda>i. if arg_save (gp_login_args ! i) then
         if \<not> absent (vals ! i) then [(the (arg_opt (gp_login_args ! i)), urldecode (vals ! i))] else []
       else []) [0 ..< ?lo]"
    by (rule map_cong[OF refl]) (simp add: saved_at_in_range)
  show ?thesis
    unfolding split map_append concat_append hi lo saved_fields_def
    by (simp add: zip_as_map_nth[of gp_login_args vals] gp_login_nargs_def[symmetric] comp_def)
qed

lemma cookie_lockstep_walk:
  "cookie_buf (lockstep_walk urldecode vals walk_start) = saved_fields urldecode vals"
  by (simp add: lockstep_walk_def fold_cookie concat_saved_at walk_start_def)

lemma fatal_lockstep_walk:
  "fatal_args (lockstep_walk urldecode vals walk_start) = 0 \<longleftrightarrow>
     \<not> (\<exists>i<gp_login_nargs. violation (gp_login_args ! i) (supplied urldecode vals i))"
proof -
  have "\<not> violation (policy_at i) v" if "gp_login_nargs \<le> i" for i v
    using that by (simp add: policy_surplus violation_def zero_arg_def)
  then have "(\<forall>i \<in> set [0 ..< max gp_login_nargs (length vals)].
        \<not> violation (policy_at i) (supplied urldecode vals i)) \<longleftrightarrow>
      (\<forall>i<gp_login_nargs. \<not> violation (gp_login_args ! i) (supplied urldecode vals i))"
    by (metis atLeastLessThan_iff set_upt less_max_iff_disj not_le policy_at_nth zero_le)
  then show ?thesis
    by (simp add: lockstep_walk_def fold_fatal walk_start_def)
qed

lemma parse_login_xml_arguments:
  assumes "login_arguments root = Some vals"
  shows "parse_login_xml urldecode vpninfo root cb_data =
     login_finish vpninfo cb_data (lockstep_walk urldecode vals walk_start)"
proof -
  from assms obtain app siblings where r: "nname root = ''jnlp''"
    and k: "skip_non_elements (children root) = app # siblings"
    and a: "nname app = ''application-desc''"
    and e: "element_args (children app) = Some vals"
    by (auto simp: login_arguments_def split: if_splits list.splits)
  have "login_args_loop urldecode 0 (children app) walk_start =
      Finished (lockstep_walk urldecode vals walk_start)"
    unfolding lockstep_walk_def using loop_lockstep[of "children app" 0 vals] e by simp
  then show ?thesis
    by (simp add: parse_login_xml_def xmlnode_is_named_def r k a)
qed



subsection \<open>Example responses\<close>

text \<open>
  A login response made of \<open>argument\<close> elements only, the argument list of the spec's
  scenario (its third value shortened), and a session to run the parsers in.
\<close>


definition argument_node :: "string \<Rightarrow> xmlNode" where
  "argument_node str = XmlNode XML_ELEMENT_NODE ''argument'' [] (Some str) []"

definition login_response :: "string list \<Rightarrow> xmlNode" where
  "login_response vals =
     XmlNode XML_ELEMENT_NODE ''jnlp'' [] (Some [])
       [XmlNode XML_ELEMENT_NODE ''application-desc'' [] (Some []) (map argument_node vals)]"

definition example_args :: "string list" where
  "example_args =
     ['''', ''abc123'', ''deadbeef'', ''Acme'', ''alice'', ''LDAP-auth'', ''vsys1'', '''',
      '''', '''', '''', '''', ''tunnel'', ''-1'', ''4100'', ''10.0.0.5'', '''', '''', '''', '''', '''']"

definition example_session :: openconnect_info where
  "example_session = \<lparr>cookie = None, localname = ''laptop'', hostname = ''vpn.example.com'',
     urlpath = None, authgroup = None, redirect_url = None, token_bypassed = False,
     write_new_config = None, trojan_interval = 0, has_token_generator = (\<lambda>f opt. False)\<rparr>"

definition example_context :: login_context where
  "example_context = \<lparr>username = None, alt_secret = None, portal_userauthcookie = None,
     portal_prelogonuserauthcookie = None, form = None\<rparr>"

lemma element_args_arguments: "element_args (map argument_node vals) = Some vals"
  by (induction vals) (simp_all add: argument_node_def)

lemma login_arguments_response: "login_arguments (login_response vals) = Some vals"
  by (simp add: login_arguments_def login_response_def skip_non_elements_def element_args_arguments)

lemma surplus_logged:
  assumes "gp_login_nargs \<le> i" "i < length vals" "\<not> absent (vals ! i)"
  shows "Unexpected_argument i (vals ! i) \<in> set (printed (lockstep_walk urldecode vals w))"
proof -
  have "i \<in> set [0 ..< max gp_login_nargs (length vals)]" using assms by simp
  moreover have "Unexpected_argument i (vals ! i) \<in> set (printed (lockstep_step urldecode vals w' i))" for w'
    using assms
    by (simp add: lockstep_step_def supplied_def policy_surplus arg_value_def absent_def
        zero_arg_def process_arg_def printed_save_arg classify_def)
  ultimately show ?thesis unfolding lockstep_walk_def by (rule fold_printed_mem)
qed

text \<open>
  Claim C1. The validator walks the schema table and the argument list in lock-step by
  position, as long as either has entries left: run on the children of
  \<open>application-desc\<close>, the loop of \<open>parse_login_xml\<close> ends normally with the result of
  folding one step over the positions \<open>0 ..< max gp_login_nargs (length vals)\<close>. It never
  reads outside the table, whatever the nodes are. A position past the supplied values
  is a step of its own entry with the null value; a position past the table is a step of
  entry 0, the always-unknown one, and a surplus value that is present is printed as an
  unexpected argument.
\<close>

theorem login_walk_lockstep:
  assumes "element_args kids = Some vals"
  shows "login_args_loop urldecode 0 kids w = Finished (lockstep_walk urldecode vals w) \<and>
    (\<forall>argn xs w'. login_args_loop urldecode argn xs w' \<noteq> Fault) \<and>
    (\<forall>i w'. length vals \<le> i \<and> i < gp_login_nargs \<longrightarrow>
       lockstep_step urldecode vals w' i = process_arg (gp_login_args ! i) i None w') \<and>
    (\<forall>i w'. gp_login_nargs \<le> i \<and> i < length vals \<longrightarrow>
       arg_unknown (gp_login_args ! 0) \<and>
       lockstep_step urldecode vals w' i =
         process_arg (gp_login_args ! 0) i (arg_value urldecode (gp_login_args ! 0) (vals ! i)) w' \<and>
       (\<not> absent (vals ! i) \<longrightarrow>
          Unexpected_argument i (vals ! i) \<in> set (printed (lockstep_walk urldecode vals w))))"
proof (intro conjI allI impI)
  show "login_args_loop urldecode 0 kids w = Finished (lockstep_walk urldecode vals w)"
    unfolding lockstep_walk_def using loop_lockstep[of kids 0 vals] assms by simp
next
  fix argn xs w'
  show "login_args_loop urldecode argn xs w' \<noteq> Fault" by (rule loop_never_faults)
next
  fix i w'
  assume "length vals \<le> i \<and> i < gp_login_nargs"
  then show "lockstep_step urldecode vals w' i = process_arg (gp_login_args ! i) i None w'"
    by (simp add: lockstep_step_def supplied_def policy_at_nth)
next
  fix i w'
  assume "gp_login_nargs \<le> i \<and> i < length vals"
  then show "lockstep_step urldecode vals w' i =
      process_arg (gp_login_args ! 0) i (arg_value urldecode (gp_login_args ! 0) (vals ! i)) w'"
    by (simp add: lockstep_step_def supplied_def policy_at_def)
next
  show "arg_unknown (gp_login_args ! 0)" by (simp add: gp_login_args_def zero_arg_def)
next
  fix i w'
  assume "gp_login_nargs \<le> i \<and> i < length vals" "\<not> absent (vals ! i)"
  then show "Unexpected_argument i (vals ! i) \<in> set (printed (lockstep_walk urldecode vals w))"
    using surplus_logged by blast
qed

definition surplus_args :: "string list" where
  "surplus_args = example_args @ [''extra'']"

theorem login_walk_lockstep_witness:
  "login_args_loop id 0 (map argument_node surplus_args) walk_start =
     Finished (lockstep_walk id surplus_args walk_start) \<and>
   Unexpected_argument 21 ''extra'' \<in> set (printed (lockstep_walk id surplus_args walk_start)) \<and>
   lockstep_step id [''only''] walk_start 1 = process_arg (gp_login_args ! 1) 1 None walk_start"
proof -
  have h: "element_args (map argument_node surplus_args) = Some surplus_args"
    by (rule element_args_arguments)
  have h1: "element_args (map argument_node [''only'']) = Some [''only'']"
    by (rule element_args_arguments)
  have len: "length surplus_args = 22" and nth: "surplus_args ! 21 = ''extra''"
    by (simp_all add: surplus_args_def example_args_def)
  have a: "gp_login_nargs \<le> 21 \<and> 21 < length surplus_args" "\<not> absent (surplus_args ! 21)"
    by (simp_all add: gp_login_nargs_21 len nth absent_def)
  have b: "length [''only''] \<le> (1::nat) \<and> 1 < gp_login_nargs"
    by (simp add: gp_login_nargs_21)
  note t = login_walk_lockstep[OF h, of id walk_start]
  note t1 = login_walk_lockstep[OF h1, of id walk_start]
  from t have c1: "login_args_loop id 0 (map argument_node surplus_args) walk_start =
      Finished (lockstep_walk id surplus_args walk_start)" by (rule conjunct1)
  note s4 = t[THEN conjunct2, THEN conjunct2, THEN conjunct2, rule_format, of 21,
      OF a(1), THEN conjunct2, THEN conjunct2, rule_format, OF a(2)]
  have c2: "Unexpected_argument 21 ''extra''
      \<in> set (printed (lockstep_walk id surplus_args walk_start))"
    using s4 by (simp only: nth)
  note s3 = t1[THEN conjunct2, THEN conjunct2, THEN conjunct1, rule_format, of 1 walk_start, OF b]
  have c3: "lockstep_step id [''only''] walk_start 1 =
      process_arg (gp_login_args ! 1) 1 None walk_start"
    using s3 .
  from c1 c2 c3 show ?thesis by (intro conjI)
qed



subsection \<open>The outcome of parse\_login\_xml\<close>


lemma finish_status:
  "fst (login_finish vpninfo cb_data w) = (if fatal_args w \<noteq> 0 then - EPERM else 0)"
  by (simp add: login_finish_def Let_def)

lemma finish_session:
  "fst (snd (login_finish vpninfo cb_data w)) =
     (if fatal_args w \<noteq> 0 then vpninfo
      else vpninfo\<lparr>cookie := Some (append_opt (cookie_buf w) ''computer'' (localname vpninfo))\<rparr>)"
  by (simp add: login_finish_def Let_def)

lemma finish_context: "fst (snd (snd (login_finish vpninfo cb_data w))) = cb_data"
  by (simp add: login_finish_def Let_def)

lemma finish_printed: "set (printed w) \<subseteq> set (snd (snd (snd (login_finish vpninfo cb_data w))))"
  by (simp add: login_finish_def Let_def)

lemma example_fatal: "fatal_args (lockstep_walk id example_args walk_start) = 0"
  by code_simp

lemma example_saved:
  "saved_fields id example_args =
     [(''authcookie'', ''abc123''), (''portal'', ''Acme''), (''user'', ''alice''),
      (''preferred-ip'', ''10.0.0.5'')]"
  by code_simp

text \<open>
  Claim C2. For every argument list of a login response: a value that is empty, \<open>(null)\<close>
  or \<open>-1\<close> is the null value of its position; the buffer the walk fills holds, in schema
  order, \<open>name=value\<close> with the URL-decoded value for exactly the positions whose entry is
  saved and whose value is present; and when the parser succeeds, the session cookie is
  that sequence followed by \<open>computer=\<close> and the local host name.
\<close>

theorem login_cookie_saved_fields:
  assumes "login_arguments root = Some vals"
  shows "(\<forall>i<length vals. absent (vals ! i) \<longrightarrow> supplied urldecode vals i = None) \<and>
    cookie_buf (lockstep_walk urldecode vals walk_start) = saved_fields urldecode vals \<and>
    (fst (parse_login_xml urldecode vpninfo root cb_data) = 0 \<longrightarrow>
       cookie (fst (snd (parse_login_xml urldecode vpninfo root cb_data))) =
         Some (saved_fields urldecode vals @ [(''computer'', localname vpninfo)]))"
proof (intro conjI allI impI)
  fix i assume "i < length vals" "absent (vals ! i)"
  then show "supplied urldecode vals i = None"
    by (simp add: supplied_def arg_value_def absent_def)
next
  show "cookie_buf (lockstep_walk urldecode vals walk_start) = saved_fields urldecode vals"
    by (rule cookie_lockstep_walk)
next
  assume ok: "fst (parse_login_xml urldecode vpninfo root cb_data) = 0"
  note p = parse_login_xml_arguments[OF assms, of urldecode vpninfo cb_data]
  from ok have "fatal_args (lockstep_walk urldecode vals walk_start) = 0"
    unfolding p finish_status by (simp add: EPERM_def split: if_splits)
  then show "cookie (fst (snd (parse_login_xml urldecode vpninfo root cb_data))) =
      Some (saved_fields urldecode vals @ [(''computer'', localname vpninfo)])"
    unfolding p finish_session by (simp add: cookie_lockstep_walk append_opt_def)
qed

theorem login_cookie_saved_fields_witness:
  "fst (parse_login_xml id example_session (login_response example_args) example_context) = 0 \<and>
   cookie (fst (snd (parse_login_xml id example_session (login_response example_args) example_context))) =
     Some [(''authcookie'', ''abc123''), (''portal'', ''Acme''), (''user'', ''alice''),
           (''preferred-ip'', ''10.0.0.5''), (''computer'', ''laptop'')] \<and>
   supplied id example_args 13 = None"
proof -
  have h: "login_arguments (login_response example_args) = Some example_args"
    by (rule login_arguments_response)
  have ok: "fst (parse_login_xml id example_session (login_response example_args) example_context) = 0"
    unfolding parse_login_xml_arguments[OF h] finish_status by (simp add: example_fatal)
  have a: "13 < length example_args" "absent (example_args ! 13)"
    by (simp_all add: example_args_def absent_def)
  note t = login_cookie_saved_fields[OF h, of id example_session example_context]
  note t1 = t[THEN conjunct1, rule_format, OF a]
  note t3 = t[THEN conjunct2, THEN conjunct2, rule_format, OF ok]
  have ln: "localname example_session = ''laptop''" by (simp add: example_session_def)
  show ?thesis using ok t1 t3 by (simp add: example_saved ln)
qed

text \<open>
  Claim C3. For every argument list of a login response: if some entry with
  \<open>err_missing\<close> is violated (its value differs from the value it must match, or, with
  nothing to match, is absent) the parser returns \<open>-EPERM\<close> and leaves the session, its
  cookie included, as it was; a connection type other than \<open>tunnel\<close> is such a violation.
  If no such entry is violated the parser returns 0 and sets the cookie, whatever else was
  reported as unexpected.
\<close>

theorem login_fatal_permission_denied:
  assumes "login_arguments root = Some vals"
  shows "((\<exists>i<gp_login_nargs. violation (gp_login_args ! i) (supplied urldecode vals i)) \<longrightarrow>
       fst (parse_login_xml urldecode vpninfo root cb_data) = - EPERM \<and>
       fst (snd (parse_login_xml urldecode vpninfo root cb_data)) = vpninfo) \<and>
    (supplied urldecode vals 12 \<noteq> Some ''tunnel'' \<longrightarrow>
       fst (parse_login_xml urldecode vpninfo root cb_data) = - EPERM \<and>
       fst (snd (parse_login_xml urldecode vpninfo root cb_data)) = vpninfo) \<and>
    (\<not> (\<exists>i<gp_login_nargs. violation (gp_login_args ! i) (supplied urldecode vals i)) \<longrightarrow>
       fst (parse_login_xml urldecode vpninfo root cb_data) = 0 \<and>
       (\<exists>c. fst (snd (parse_login_xml urldecode vpninfo root cb_data)) = vpninfo\<lparr>cookie := Some c\<rparr>))"
proof -
  let ?fatal = "\<exists>i<gp_login_nargs. violation (gp_login_args ! i) (supplied urldecode vals i)"
  note p = parse_login_xml_arguments[OF assms, of urldecode vpninfo cb_data]
  note f = fatal_lockstep_walk[of urldecode vals]
  have yes: "fst (parse_login_xml urldecode vpninfo root cb_data) = - EPERM \<and>
       fst (snd (parse_login_xml urldecode vpninfo root cb_data)) = vpninfo" if ?fatal
    unfolding p finish_status finish_session using that f by simp
  have no: "fst (parse_login_xml urldecode vpninfo root cb_data) = 0 \<and>
       (\<exists>c. fst (snd (parse_login_xml urldecode vpninfo root cb_data)) = vpninfo\<lparr>cookie := Some c\<rparr>)"
    if "\<not> ?fatal"
  proof -
    from that f have z: "fatal_args (lockstep_walk urldecode vals walk_start) = 0" by simp
    show ?thesis unfolding p finish_status finish_session
      by (intro conjI exI[of _ "append_opt (cookie_buf (lockstep_walk urldecode vals walk_start))
            ''computer'' (localname vpninfo)"]) (simp_all add: z)
  qed
  have tunnel: ?fatal if "supplied urldecode vals 12 \<noteq> Some ''tunnel''"
  proof -
    have "violation (gp_login_args ! 12) (supplied urldecode vals 12)"
      using that by (simp add: gp_login_args_def zero_arg_def violation_def)
    moreover have "12 < gp_login_nargs" by (simp add: gp_login_nargs_21)
    ultimately show ?thesis by blast
  qed
  from yes no tunnel show ?thesis by blast
qed

definition wrong_type_args :: "string list" where
  "wrong_type_args = example_args[12 := ''clientless'']"

theorem login_fatal_permission_denied_witness:
  "fst (parse_login_xml id example_session (login_response wrong_type_args) example_context) = - EPERM \<and>
   fst (snd (parse_login_xml id example_session (login_response wrong_type_args) example_context)) =
     example_session \<and>
   fst (parse_login_xml id example_session (login_response example_args) example_context) = 0 \<and>
   Empty_or_missing (Some ''domain'') \<in> set (printed (lockstep_walk id example_args walk_start))"
proof -
  have h: "login_arguments (login_response wrong_type_args) = Some wrong_type_args"
    by (rule login_arguments_response)
  have h2: "login_arguments (login_response example_args) = Some example_args"
    by (rule login_arguments_response)
  have a: "supplied id wrong_type_args 12 \<noteq> Some ''tunnel''"
    by code_simp
  have b: "\<not> (\<exists>i<gp_login_nargs. violation (gp_login_args ! i) (supplied id example_args i))"
    using fatal_lockstep_walk[of id example_args] example_fatal by simp
  have c: "Empty_or_missing (Some ''domain'') \<in> set (printed (lockstep_walk id example_args walk_start))"
    by code_simp
  note t = login_fatal_permission_denied[OF h, of id example_session example_context]
  note t2 = login_fatal_permission_denied[OF h2, of id example_session example_context]
  note r1 = t[THEN conjunct2, THEN conjunct1, rule_format, OF a]
  note r2 = t2[THEN conjunct2, THEN conjunct2, rule_format, OF b, THEN conjunct1]
  from r1 r2 c show ?thesis by simp
qed



subsection \<open>What parse\_login\_xml leaves alone\<close>


lemma parse_login_xml_context:
  "fst (snd (snd (parse_login_xml urldecode vpninfo root cb_data))) = cb_data"
  by (simp add: parse_login_xml_def login_finish_def Let_def
      split: list.split loop_exit.split)

lemma parse_login_xml_ignores_context:
  "fst (parse_login_xml urldecode vpninfo root other) = fst (parse_login_xml urldecode vpninfo root cb_data) \<and>
   fst (snd (parse_login_xml urldecode vpninfo root other)) =
     fst (snd (parse_login_xml urldecode vpninfo root cb_data)) \<and>
   snd (snd (snd (parse_login_xml urldecode vpninfo root other))) =
     snd (snd (snd (parse_login_xml urldecode vpninfo root cb_data)))"
  by (simp add: parse_login_xml_def login_finish_def Let_def
      split: list.split loop_exit.split)

lemma parse_login_xml_session:
  "if fst (parse_login_xml urldecode vpninfo root cb_data) = 0
   then \<exists>c. fst (snd (parse_login_xml urldecode vpninfo root cb_data)) = vpninfo\<lparr>cookie := Some c\<rparr>
   else fst (snd (parse_login_xml urldecode vpninfo root cb_data)) = vpninfo"
proof -
  have fin: "if fst (login_finish vpninfo cb_data w) = 0
     then \<exists>c. fst (snd (login_finish vpninfo cb_data w)) = vpninfo\<lparr>cookie := Some c\<rparr>
     else fst (snd (login_finish vpninfo cb_data w)) = vpninfo" for w
    by (cases "fatal_args w = 0") (auto simp: login_finish_def Let_def EPERM_def)
  have "(\<exists>w. parse_login_xml urldecode vpninfo root cb_data = login_finish vpninfo cb_data w) \<or>
      (fst (parse_login_xml urldecode vpninfo root cb_data) = - EINVAL \<and>
       fst (snd (parse_login_xml urldecode vpninfo root cb_data)) = vpninfo)"
    by (auto simp: parse_login_xml_def split: list.split loop_exit.split)
  then show ?thesis
  proof
    assume "\<exists>w. parse_login_xml urldecode vpninfo root cb_data = login_finish vpninfo cb_data w"
    then obtain w where "parse_login_xml urldecode vpninfo root cb_data = login_finish vpninfo cb_data w"
      by blast
    then show ?thesis using fin[of w] by simp
  next
    assume "fst (parse_login_xml urldecode vpninfo root cb_data) = - EINVAL \<and>
       fst (snd (parse_login_xml urldecode vpninfo root cb_data)) = vpninfo"
    then show ?thesis by (simp add: EINVAL_def)
  qed
qed

lemma shown_logged:
  assumes "i < length vals" "i = 16 \<or> i = 17" "\<not> absent (vals ! i)"
  shows "Login_returned (arg_opt (gp_login_args ! i)) (vals ! i)
     \<in> set (printed (lockstep_walk urldecode vals walk_start))"
proof -
  have lt: "i < gp_login_nargs" using assms(2) by (auto simp: gp_login_nargs_21)
  then have "i \<in> set [0 ..< max gp_login_nargs (length vals)]" by simp
  moreover have pol: "\<not> arg_unknown (gp_login_args ! i) \<and> arg_check (gp_login_args ! i) = None \<and>
      \<not> arg_err_missing (gp_login_args ! i) \<and> \<not> arg_warn_missing (gp_login_args ! i) \<and>
      arg_show (gp_login_args ! i) \<and> \<not> arg_save (gp_login_args ! i)"
    using assms(2) by (auto simp: gp_login_args_def zero_arg_def)
  have "Login_returned (arg_opt (gp_login_args ! i)) (vals ! i)
      \<in> set (printed (lockstep_step urldecode vals w' i))" for w'
    using assms(1,3) pol
    by (simp add: lockstep_step_def supplied_def policy_at_nth[OF lt] arg_value_def absent_def
        process_arg_def printed_save_arg classify_def)
  ultimately show ?thesis unfolding lockstep_walk_def by (rule fold_printed_mem)
qed

lemma saved_names:
  "fst ` set (saved_fields urldecode vals) \<subseteq>
     {''authcookie'', ''portal'', ''user'', ''domain'', ''preferred-ip'', ''preferred-ipv6''}"
proof -
  have "list_all (\<lambda>arg. arg_save arg \<longrightarrow> the (arg_opt arg) \<in>
      {''authcookie'', ''portal'', ''user'', ''domain'', ''preferred-ip'', ''preferred-ipv6''}) gp_login_args"
    by (simp add: gp_login_args_def zero_arg_def)
  then have names: "arg \<in> set gp_login_args \<Longrightarrow> arg_save arg \<Longrightarrow> the (arg_opt arg) \<in>
      {''authcookie'', ''portal'', ''user'', ''domain'', ''preferred-ip'', ''preferred-ipv6''}" for arg
    by (simp add: list_all_iff)
  show ?thesis
  proof
    fix x assume "x \<in> fst ` set (saved_fields urldecode vals)"
    then obtain arg str where z: "(arg, str) \<in> set (zip gp_login_args vals)"
      and sv: "arg_save arg" and x: "x = the (arg_opt arg)"
      by (auto simp: saved_fields_def)
    from z have "arg \<in> set gp_login_args" by (rule set_zip_leftD)
    with sv x names show "x \<in> {''authcookie'', ''portal'', ''user'', ''domain'', ''preferred-ip'', ''preferred-ipv6''}"
      by blast
  qed
qed

text \<open>
  Claim C10. The login-response parser neither reads nor changes the session context:
  it returns the context it was given, and its status, session and output are the same
  for any other context. Its only change to the session is the cookie, set when it
  returns 0; on any other status the session is as it was. Present values at positions
  16 and 17 (the two portal cookies) are printed, and they are stored nowhere: the context
  is unchanged and the cookie buffer has no entry under their names.
\<close>

theorem parse_login_xml_frame:
  "fst (snd (snd (parse_login_xml urldecode vpninfo root cb_data))) = cb_data \<and>
   (fst (parse_login_xml urldecode vpninfo root other) = fst (parse_login_xml urldecode vpninfo root cb_data) \<and>
    fst (snd (parse_login_xml urldecode vpninfo root other)) =
      fst (snd (parse_login_xml urldecode vpninfo root cb_data)) \<and>
    snd (snd (snd (parse_login_xml urldecode vpninfo root other))) =
      snd (snd (snd (parse_login_xml urldecode vpninfo root cb_data)))) \<and>
   (if fst (parse_login_xml urldecode vpninfo root cb_data) = 0
    then \<exists>c. fst (snd (parse_login_xml urldecode vpninfo root cb_data)) = vpninfo\<lparr>cookie := Some c\<rparr>
    else fst (snd (parse_login_xml urldecode vpninfo root cb_data)) = vpninfo) \<and>
   (\<forall>vals i. login_arguments root = Some vals \<and> i < length vals \<and> (i = 16 \<or> i = 17) \<and>
        \<not> absent (vals ! i) \<longrightarrow>
      Login_returned (arg_opt (gp_login_args ! i)) (vals ! i)
        \<in> set (snd (snd (snd (parse_login_xml urldecode vpninfo root cb_data)))) \<and>
      the (arg_opt (gp_login_args ! i)) \<notin> fst ` set (saved_fields urldecode vals) \<and>
      cookie_buf (lockstep_walk urldecode vals walk_start) = saved_fields urldecode vals)"
proof (intro conjI allI impI)
  show "fst (snd (snd (parse_login_xml urldecode vpninfo root cb_data))) = cb_data"
    by (rule parse_login_xml_context)
  show "fst (parse_login_xml urldecode vpninfo root other) = fst (parse_login_xml urldecode vpninfo root cb_data)"
    "fst (snd (parse_login_xml urldecode vpninfo root other)) =
      fst (snd (parse_login_xml urldecode vpninfo root cb_data))"
    "snd (snd (snd (parse_login_xml urldecode vpninfo root other))) =
      snd (snd (snd (parse_login_xml urldecode vpninfo root cb_data)))"
    using parse_login_xml_ignores_context[of urldecode vpninfo root other cb_data] by simp_all
  show "if fst (parse_login_xml urldecode vpninfo root cb_data) = 0
    then \<exists>c. fst (snd (parse_login_xml urldecode vpninfo root cb_data)) = vpninfo\<lparr>cookie := Some c\<rparr>
    else fst (snd (parse_login_xml urldecode vpninfo root cb_data)) = vpninfo"
    by (rule parse_login_xml_session)
next
  fix vals i
  assume a: "login_arguments root = Some vals \<and> i < length vals \<and> (i = 16 \<or> i = 17) \<and>
        \<not> absent (vals ! i)"
  note p = parse_login_xml_arguments[of root vals urldecode vpninfo cb_data]
  show "Login_returned (arg_opt (gp_login_args ! i)) (vals ! i)
        \<in> set (snd (snd (snd (parse_login_xml urldecode vpninfo root cb_data))))"
    using a p shown_logged[of i vals urldecode]
      finish_printed[of "lockstep_walk urldecode vals walk_start" vpninfo cb_data] by auto
  have "the (arg_opt (gp_login_args ! i)) \<in> {''portal-userauthcookie'', ''portal-prelogonuserauthcookie''}"
    using a by (auto simp: gp_login_args_def zero_arg_def)
  then show "the (arg_opt (gp_login_args ! i)) \<notin> fst ` set (saved_fields urldecode vals)"
    using saved_names[of urldecode vals] by auto
  show "cookie_buf (lockstep_walk urldecode vals walk_start) = saved_fields urldecode vals"
    by (rule cookie_lockstep_walk)
qed

definition portal_cookie_args :: "string list" where
  "portal_cookie_args = example_args[16 := ''PUAC'', 17 := ''PPUAC'']"

theorem parse_login_xml_frame_witness:
  "fst (parse_login_xml id example_session (login_response portal_cookie_args) example_context) = 0 \<and>
   fst (snd (snd (parse_login_xml id example_session (login_response portal_cookie_args) example_context)))
     = example_context \<and>
   portal_userauthcookie (fst (snd (snd
      (parse_login_xml id example_session (login_response portal_cookie_args) example_context)))) = None \<and>
   Login_returned (Some ''portal-userauthcookie'') ''PUAC''
     \<in> set (snd (snd (snd (parse_login_xml id example_session (login_response portal_cookie_args) example_context)))) \<and>
   (\<exists>c. fst (snd (parse_login_xml id example_session (login_response portal_cookie_args) example_context))
      = example_session\<lparr>cookie := Some c\<rparr>)"
proof -
  let ?r = "parse_login_xml id example_session (login_response portal_cookie_args) example_context"
  have h: "login_arguments (login_response portal_cookie_args) = Some portal_cookie_args"
    by (rule login_arguments_response)
  have z: "fatal_args (lockstep_walk id portal_cookie_args walk_start) = 0" by code_simp
  have ok: "fst ?r = 0"
    unfolding parse_login_xml_arguments[OF h] finish_status by (simp add: z)
  have a: "login_arguments (login_response portal_cookie_args) = Some portal_cookie_args \<and>
      16 < length portal_cookie_args \<and> (16 = (16::nat) \<or> 16 = (17::nat)) \<and> \<not> absent (portal_cookie_args ! 16)"
    using h by (simp add: portal_cookie_args_def example_args_def absent_def)
  have n: "portal_cookie_args ! 16 = ''PUAC''" "arg_opt (gp_login_args ! 16) = Some ''portal-userauthcookie''"
    by (simp_all add: portal_cookie_args_def example_args_def gp_login_args_def zero_arg_def)
  note t = parse_login_xml_frame[of id example_session "login_response portal_cookie_args"
      example_context example_context]
  note t1 = t[THEN conjunct1]
  note t3 = t[THEN conjunct2, THEN conjunct2, THEN conjunct1]
  note t4 = t[THEN conjunct2, THEN conjunct2, THEN conjunct2, rule_format, OF a, THEN conjunct1]
  have c: "portal_userauthcookie example_context = None" by (simp add: example_context_def)
  from ok t1 t3 t4 c show ?thesis by (simp add: n)
qed




subsection \<open>parse\_prelogin\_xml\<close>

text \<open>The string locals of \<open>parse_prelogin_xml\<close>, all null at the start.\<close>

record prelogin_vars =
  prompt :: "string option"
  username_label :: "string option"
  password_label :: "string option"
  saml_method :: "string option"
  saml_path :: "string option"

definition prelogin_start :: prelogin_vars where
  "prelogin_start = \<lparr>prompt = None, username_label = None, password_label = None,
     saml_method = None, saml_path = None\<rparr>"

text \<open>
  The loop of lines 88 to 114 over the children of the root. \<open>openconnect_base64_decode\<close>
  is not in this file and is a parameter; \<open>None\<close> is its failure (\<open>len < 0\<close>).
\<close>

fun prelogin_scan ::
  "(string \<Rightarrow> string option) \<Rightarrow> xmlNode list \<Rightarrow> prelogin_vars
     \<Rightarrow> int \<times> prelogin_vars \<times> progress_msg list" where
  "prelogin_scan base64_decode [] v = (0, v, [])"
| "prelogin_scan base64_decode (xml_node # nxt) v =
     (case snd (xmlnode_get_val xml_node ''saml-request'' None) of
        Some s \<Rightarrow>
          (case base64_decode s of
             None \<Rightarrow> (- EINVAL, v, [Saml_not_base64 s])
           | Some path \<Rightarrow> prelogin_scan base64_decode nxt (v\<lparr>saml_path := Some path\<rparr>))
      | None \<Rightarrow>
          prelogin_scan base64_decode nxt
            (v\<lparr>saml_method := snd (xmlnode_get_val xml_node ''saml-auth-method'' (saml_method v)),
               prompt := snd (xmlnode_get_val xml_node ''authentication-message'' (prompt v)),
               username_label := snd (xmlnode_get_val xml_node ''username-label'' (username_label v)),
               password_label := snd (xmlnode_get_val xml_node ''password-label'' (password_label v))\<rparr>))"

text \<open>
  Lines 117 to 140: a response that asks for SAML is let through only if the context
  holds one of the two portal cookies or an alternative secret field.
\<close>

definition saml_gate :: "login_context \<Rightarrow> prelogin_vars \<Rightarrow> int \<times> progress_msg list" where
  "saml_gate ctx v =
     (if saml_method v \<noteq> None \<or> saml_path v \<noteq> None then
        if portal_userauthcookie ctx \<noteq> None then (0, [Saml_using_portal_userauthcookie])
        else if portal_prelogonuserauthcookie ctx \<noteq> None then
          (0, [Saml_using_portal_prelogonuserauthcookie])
        else (case alt_secret ctx of
                Some field \<Rightarrow> (0, [Saml_field_specified field (saml_method v)])
              | None \<Rightarrow>
                  (- EPERM,
                   [if saml_method v = Some ''REDIRECT''
                    then Saml_required_via (saml_method v) (saml_path v)
                    else Saml_required_external (saml_method v),
                    Saml_specify_field]))
      else (0, []))"

text \<open>
  Modelled from the spec: \<open>can_gen_tokencode\<close> belongs to the one-time-password support
  outside this file. It asks \<open>has_token_generator\<close> and answers as a C truth value, not
  zero when a token generator is registered for the field.
\<close>

definition can_gen_tokencode :: "openconnect_info \<Rightarrow> oc_auth_form \<Rightarrow> oc_form_opt \<Rightarrow> int" where
  "can_gen_tokencode vpninfo frm fld = (if has_token_generator vpninfo frm fld then 1 else 0)"

text \<open>Lines 143 to 189: the new form, built from the labels and the context.\<close>

definition user_opt :: "login_context \<Rightarrow> prelogin_vars \<Rightarrow> oc_form_opt" where
  "user_opt ctx v =
     \<lparr>opt_type = (if username ctx = None then OC_FORM_OPT_TEXT else OC_FORM_OPT_HIDDEN),
      opt_name = ''user'',
      opt_label = (case username_label v of Some l \<Rightarrow> l | None \<Rightarrow> ''Username'') @ '': '',
      opt_value = username ctx,
      opt_choices = []\<rparr>"

definition secret_opt :: "login_context \<Rightarrow> prelogin_vars \<Rightarrow> oc_form_opt" where
  "secret_opt ctx v =
     \<lparr>opt_type = OC_FORM_OPT_UNSET,
      opt_name = (case alt_secret ctx of Some field \<Rightarrow> field | None \<Rightarrow> ''passwd''),
      opt_label =
        (case alt_secret ctx of
           Some field \<Rightarrow> field
         | None \<Rightarrow> (case password_label v of Some l \<Rightarrow> l | None \<Rightarrow> ''Password'')) @ '': '',
      opt_value = None,
      opt_choices = []\<rparr>"

definition new_login_form :: "login_context \<Rightarrow> prelogin_vars \<Rightarrow> oc_auth_form" where
  "new_login_form ctx v =
     \<lparr>message = (case prompt v of Some p \<Rightarrow> p
                  | None \<Rightarrow> ''Please enter your username and password''),
      auth_id = ''_login'',
      action = None,
      opts = [user_opt ctx v, secret_opt ctx v]\<rparr>"

definition secret_type ::
  "openconnect_info \<Rightarrow> login_context \<Rightarrow> prelogin_vars \<Rightarrow> oc_form_opt_type" where
  "secret_type vpninfo ctx v =
     (if can_gen_tokencode vpninfo (new_login_form ctx v) (secret_opt ctx v) = 0
         \<and> alt_secret ctx = None
         \<and> password_label v \<noteq> None \<and> password_label v \<noteq> Some ''Password''
      then OC_FORM_OPT_TOKEN
      else OC_FORM_OPT_PASSWORD)"

definition build_login_form ::
  "openconnect_info \<Rightarrow> login_context \<Rightarrow> prelogin_vars \<Rightarrow> oc_auth_form" where
  "build_login_form vpninfo ctx v =
     (new_login_form ctx v)
       \<lparr>opts := [user_opt ctx v, (secret_opt ctx v)\<lparr>opt_type := secret_type vpninfo ctx v\<rparr>]\<rparr>"

definition parse_prelogin_xml ::
  "(string \<Rightarrow> string option) \<Rightarrow> openconnect_info \<Rightarrow> xmlNode \<Rightarrow> login_context
     \<Rightarrow> int \<times> openconnect_info \<times> login_context \<times> progress_msg list" where
  "parse_prelogin_xml base64_decode vpninfo xml_node cb_data =
     (if \<not> xmlnode_is_named xml_node ''prelogin-response'' then (0, vpninfo, cb_data, [])
      else case prelogin_scan base64_decode (children xml_node) prelogin_start of
        (result, v, out) \<Rightarrow>
          if result \<noteq> 0 then (result, vpninfo, cb_data, out)
          else (case saml_gate cb_data v of
                  (result2, out2) \<Rightarrow>
                    if result2 \<noteq> 0 then (result2, vpninfo, cb_data, out @ out2)
                    else
                      (0, vpninfo,
                       cb_data\<lparr>username := None,
                               form := Some (build_login_form vpninfo cb_data v)\<rparr>,
                       out @ out2 @ [Prelogin_form (build_login_form vpninfo cb_data v)])))"


subsection \<open>What a prelogin response asks for\<close>

text \<open>
  The terms of the specification for a prelogin response: a SAML request or method
  marker, SAML requests that decode, the completion signals of the context, the label
  the server supplies under a name (the last one, if there are several), and the locals
  as the scanning loop leaves them.
\<close>

definition saml_marker :: "xmlNode \<Rightarrow> bool" where
  "saml_marker n =
     ((nname n = ''saml-request'' \<or> nname n = ''saml-auth-method'') \<and> content n \<noteq> None)"

definition saml_requests_decode :: "(string \<Rightarrow> string option) \<Rightarrow> xmlNode list \<Rightarrow> bool" where
  "saml_requests_decode base64_decode nodes =
     list_all (\<lambda>n. case content n of
                      None \<Rightarrow> True
                    | Some s \<Rightarrow> nname n \<noteq> ''saml-request'' \<or> base64_decode s \<noteq> None) nodes"

definition completion_signal :: "login_context \<Rightarrow> bool" where
  "completion_signal ctx =
     (portal_userauthcookie ctx \<noteq> None \<or> portal_prelogonuserauthcookie ctx \<noteq> None
        \<or> alt_secret ctx \<noteq> None)"

definition server_label :: "string \<Rightarrow> xmlNode list \<Rightarrow> string option" where
  "server_label name nodes = foldl (\<lambda>var n. snd (xmlnode_get_val n name var)) None nodes"

definition scanned :: "(string \<Rightarrow> string option) \<Rightarrow> xmlNode \<Rightarrow> prelogin_vars" where
  "scanned base64_decode root = fst (snd (prelogin_scan base64_decode (children root) prelogin_start))"

lemma get_val_keeps: "var \<noteq> None \<Longrightarrow> snd (xmlnode_get_val n name var) \<noteq> None"
  by (simp add: xmlnode_get_val_def split: option.split)

lemma scan_ok:
  "saml_requests_decode base64_decode xs \<Longrightarrow> fst (prelogin_scan base64_decode xs v) = 0"
proof (induction xs arbitrary: v)
  case Nil
  show ?case by simp
next
  case (Cons x xs)
  then have rest: "saml_requests_decode base64_decode xs"
    and this_one: "case content x of None \<Rightarrow> True
        | Some s \<Rightarrow> nname x \<noteq> ''saml-request'' \<or> base64_decode s \<noteq> None"
    by (simp_all add: saml_requests_decode_def)
  show ?case
  proof (cases "snd (xmlnode_get_val x ''saml-request'' None)")
    case None
    then show ?thesis using Cons.IH[OF rest] by simp
  next
    case (Some s)
    then have "nname x = ''saml-request''" "content x = Some s"
      by (auto simp: xmlnode_get_val_def xmlnode_is_named_def split: if_splits option.splits)
    with this_one obtain path where "base64_decode s = Some path" by auto
    with Some show ?thesis using Cons.IH[OF rest] by simp
  qed
qed

lemma scan_marker:
  assumes "saml_requests_decode base64_decode xs"
    and "(\<exists>n \<in> set xs. saml_marker n) \<or> saml_method v \<noteq> None \<or> saml_path v \<noteq> None"
  shows "saml_method (fst (snd (prelogin_scan base64_decode xs v))) \<noteq> None \<or>
         saml_path (fst (snd (prelogin_scan base64_decode xs v))) \<noteq> None"
  using assms
proof (induction xs arbitrary: v)
  case Nil
  then show ?case by simp
next
  case (Cons x xs)
  then have rest: "saml_requests_decode base64_decode xs"
    and this_one: "case content x of None \<Rightarrow> True
        | Some s \<Rightarrow> nname x \<noteq> ''saml-request'' \<or> base64_decode s \<noteq> None"
    by (simp_all add: saml_requests_decode_def)
  show ?case
  proof (cases "snd (xmlnode_get_val x ''saml-request'' None)")
    case (Some s)
    then have "nname x = ''saml-request''" "content x = Some s"
      by (auto simp: xmlnode_get_val_def xmlnode_is_named_def split: if_splits option.splits)
    with this_one obtain path where p: "base64_decode s = Some path" by auto
    have "saml_path (v\<lparr>saml_path := Some path\<rparr>) \<noteq> None" by simp
    then show ?thesis using Some p Cons.IH[OF rest, of "v\<lparr>saml_path := Some path\<rparr>"] by simp
  next
    case None
    let ?v = "v\<lparr>saml_method := snd (xmlnode_get_val x ''saml-auth-method'' (saml_method v)),
               prompt := snd (xmlnode_get_val x ''authentication-message'' (prompt v)),
               username_label := snd (xmlnode_get_val x ''username-label'' (username_label v)),
               password_label := snd (xmlnode_get_val x ''password-label'' (password_label v))\<rparr>"
    have notreq: "\<not> (nname x = ''saml-request'' \<and> content x \<noteq> None)"
      using None by (auto simp: xmlnode_get_val_def xmlnode_is_named_def split: if_splits option.splits)
    have "(\<exists>n \<in> set xs. saml_marker n) \<or> saml_method ?v \<noteq> None \<or> saml_path ?v \<noteq> None"
    proof (cases "saml_marker x")
      case True
      with notreq have "nname x = ''saml-auth-method''" "content x \<noteq> None"
        by (auto simp: saml_marker_def)
      then have "saml_method ?v \<noteq> None"
        by (auto simp: xmlnode_get_val_def xmlnode_is_named_def)
      then show ?thesis by blast
    next
      case False
      with Cons.prems(2) have "(\<exists>n \<in> set xs. saml_marker n) \<or> saml_method v \<noteq> None \<or> saml_path v \<noteq> None"
        by auto
      then show ?thesis using get_val_keeps[of "saml_method v" x "''saml-auth-method''"] by auto
    qed
    then show ?thesis using None Cons.IH[OF rest, of ?v] by simp
  qed
qed

lemma scan_password_label:
  "fst (prelogin_scan base64_decode xs v) = 0 \<Longrightarrow>
   password_label (fst (snd (prelogin_scan base64_decode xs v))) =
     foldl (\<lambda>var n. snd (xmlnode_get_val n ''password-label'' var)) (password_label v) xs"
proof (induction xs arbitrary: v)
  case Nil
  show ?case by simp
next
  case (Cons x xs)
  show ?case
  proof (cases "snd (xmlnode_get_val x ''saml-request'' None)")
    case (Some s)
    then have nm: "nname x = ''saml-request''"
      by (auto simp: xmlnode_get_val_def xmlnode_is_named_def split: if_splits option.splits)
    from Cons.prems Some obtain path where p: "base64_decode s = Some path"
      by (cases "base64_decode s") (auto simp: EINVAL_def)
    have same: "snd (xmlnode_get_val x ''password-label'' (password_label v)) = password_label v"
      using nm by (simp add: xmlnode_get_val_def xmlnode_is_named_def)
    from Cons.prems Some p have "fst (prelogin_scan base64_decode xs (v\<lparr>saml_path := Some path\<rparr>)) = 0"
      by simp
    from Cons.IH[OF this] Some p same show ?thesis by simp
  next
    case None
    with Cons.prems Cons.IH show ?thesis by simp
  qed
qed

lemma parse_prelogin_xml_result:
  assumes "xmlnode_is_named root ''prelogin-response''"
    and "fst (prelogin_scan base64_decode (children root) prelogin_start) = 0"
  shows "parse_prelogin_xml base64_decode vpninfo root ctx =
    (let v = scanned base64_decode root;
         out = snd (snd (prelogin_scan base64_decode (children root) prelogin_start))
     in if fst (saml_gate ctx v) \<noteq> 0
        then (fst (saml_gate ctx v), vpninfo, ctx, out @ snd (saml_gate ctx v))
        else (0, vpninfo,
              ctx\<lparr>username := None, form := Some (build_login_form vpninfo ctx v)\<rparr>,
              out @ snd (saml_gate ctx v) @ [Prelogin_form (build_login_form vpninfo ctx v)]))"
proof -
  obtain r v out where sc: "prelogin_scan base64_decode (children root) prelogin_start = (r, v, out)"
    by (cases "prelogin_scan base64_decode (children root) prelogin_start") auto
  with assms(2) have r: "r = 0" by simp
  obtain r2 out2 where g: "saml_gate ctx v = (r2, out2)" by force
  show ?thesis
    using assms(1) by (simp add: parse_prelogin_xml_def scanned_def Let_def sc r g)
qed

lemma saml_gate_status:
  "saml_method v \<noteq> None \<or> saml_path v \<noteq> None \<Longrightarrow>
   fst (saml_gate ctx v) = (if completion_signal ctx then 0 else - EPERM)"
  by (auto simp: saml_gate_def completion_signal_def split: option.split)

lemma saml_gate_report:
  "saml_method v \<noteq> None \<or> saml_path v \<noteq> None \<Longrightarrow> \<not> completion_signal ctx \<Longrightarrow>
   snd (saml_gate ctx v) =
     [if saml_method v = Some ''REDIRECT''
      then Saml_required_via (saml_method v) (saml_path v)
      else Saml_required_external (saml_method v), Saml_specify_field]"
  by (auto simp: saml_gate_def completion_signal_def split: option.split)




subsection \<open>Example prelogin responses\<close>

definition element :: "string \<Rightarrow> string \<Rightarrow> xmlNode" where
  "element name str = XmlNode XML_ELEMENT_NODE name [] (Some str) []"

definition prelogin_response :: "xmlNode list \<Rightarrow> xmlNode" where
  "prelogin_response kids = XmlNode XML_ELEMENT_NODE ''prelogin-response'' [] (Some []) kids"

text \<open>
  A stand-in for \<open>openconnect_base64_decode\<close> in the examples: like the decoder it fails
  on a character outside the base64 alphabet; what it yields otherwise is not the decoded
  text but a fixed path.
\<close>

definition example_base64 :: "string \<Rightarrow> string option" where
  "example_base64 s =
     (if set s \<subseteq> set ''ABCDEFGHIJKLMNOPQRSTUVWXYZabcdefghijklmnopqrstuvwxyz0123456789+/=''
      then Some ''https://idp.example.com/sso'' else None)"

definition saml_redirect_response :: xmlNode where
  "saml_redirect_response =
     prelogin_response [element ''saml-auth-method'' ''REDIRECT'', element ''saml-request'' ''aHR0cHM6Ly8='']"

definition saml_post_response :: xmlNode where
  "saml_post_response =
     prelogin_response [element ''saml-auth-method'' ''POST'', element ''saml-request'' ''aHR0cHM6Ly8='']"

definition saml_garbled_response :: xmlNode where
  "saml_garbled_response =
     prelogin_response [element ''saml-auth-method'' ''REDIRECT'', element ''saml-request'' ''!!'']"

definition field_context :: login_context where
  "field_context = example_context\<lparr>alt_secret := Some ''prelogin-cookie''\<rparr>"

text \<open>
  Claim C6 as it is written fails on a response whose SAML request is not base64: the
  loop leaves with \<open>-EINVAL\<close> before the context is looked at, so a context without any
  of the three signals does not get \<open>-EPERM\<close>, and a context with one gets no form. And
  for a method other than \<open>REDIRECT\<close> the message names the method only, not the target.
\<close>

theorem saml_gate_counterexample:
  "\<not> (fst (parse_prelogin_xml example_base64 example_session saml_garbled_response example_context)
        = - EPERM \<longleftrightarrow>
      (portal_userauthcookie example_context = None \<and>
       portal_prelogonuserauthcookie example_context = None \<and>
       alt_secret example_context = None)) \<and>
   saml_marker (element ''saml-request'' ''!!'') \<and>
   fst (parse_prelogin_xml example_base64 example_session saml_garbled_response example_context)
     = - EINVAL \<and>
   form (fst (snd (snd (parse_prelogin_xml example_base64 example_session saml_garbled_response
     field_context)))) = None \<and>
   snd (snd (snd (parse_prelogin_xml example_base64 example_session saml_post_response example_context)))
     = [Saml_required_external (Some ''POST''), Saml_specify_field]"
  by (simp add: parse_prelogin_xml_def saml_garbled_response_def saml_post_response_def
      prelogin_response_def element_def
      xmlnode_is_named_def xmlnode_get_val_def prelogin_start_def example_base64_def
      example_context_def field_context_def saml_marker_def saml_gate_def errno_defs)

text \<open>
  Claim C6, amended. For every prelogin response that holds a SAML request or a SAML
  method marker and whose SAML requests all decode as base64: the parser returns
  \<open>-EPERM\<close> exactly when the context holds none of \<open>portal_userauthcookie\<close>,
  \<open>portal_prelogonuserauthcookie\<close> and \<open>alt_secret\<close>; it then leaves the context as it
  was and prints the method, with the decoded target when the method is \<open>REDIRECT\<close>. If
  one of the three is present it returns 0 and puts the new login form in the context.
\<close>

theorem saml_gate_permission_denied:
  assumes "xmlnode_is_named root ''prelogin-response''"
    and "\<exists>n \<in> set (children root). saml_marker n"
    and "saml_requests_decode base64_decode (children root)"
  shows "(fst (parse_prelogin_xml base64_decode vpninfo root ctx) = - EPERM \<longleftrightarrow>
            \<not> completion_signal ctx) \<and>
    (\<not> completion_signal ctx \<longrightarrow>
       fst (snd (snd (parse_prelogin_xml base64_decode vpninfo root ctx))) = ctx \<and>
       (if saml_method (scanned base64_decode root) = Some ''REDIRECT''
        then Saml_required_via (saml_method (scanned base64_decode root))
               (saml_path (scanned base64_decode root))
        else Saml_required_external (saml_method (scanned base64_decode root)))
         \<in> set (snd (snd (snd (parse_prelogin_xml base64_decode vpninfo root ctx))))) \<and>
    (completion_signal ctx \<longrightarrow>
       fst (parse_prelogin_xml base64_decode vpninfo root ctx) = 0 \<and>
       form (fst (snd (snd (parse_prelogin_xml base64_decode vpninfo root ctx)))) =
         Some (build_login_form vpninfo ctx (scanned base64_decode root)))"
proof -
  let ?v = "scanned base64_decode root"
  have ok: "fst (prelogin_scan base64_decode (children root) prelogin_start) = 0"
    using assms(3) by (rule scan_ok)
  have m: "saml_method ?v \<noteq> None \<or> saml_path ?v \<noteq> None"
    unfolding scanned_def using assms(3) assms(2) by (intro scan_marker) auto
  note p = parse_prelogin_xml_result[OF assms(1) ok, of vpninfo ctx]
  note g = saml_gate_status[OF m, of ctx]
  show ?thesis
  proof (cases "completion_signal ctx")
    case True
    then show ?thesis unfolding p by (simp add: Let_def g EPERM_def)
  next
    case False
    note rep = saml_gate_report[OF m False]
    from False show ?thesis unfolding p by (simp add: Let_def g rep EPERM_def)
  qed
qed

theorem saml_gate_permission_denied_witness:
  "fst (parse_prelogin_xml example_base64 example_session saml_redirect_response example_context)
     = - EPERM \<and>
   Saml_required_via (Some ''REDIRECT'') (Some ''https://idp.example.com/sso'')
     \<in> set (snd (snd (snd
         (parse_prelogin_xml example_base64 example_session saml_redirect_response example_context)))) \<and>
   fst (parse_prelogin_xml example_base64 example_session saml_redirect_response field_context) = 0 \<and>
   form (fst (snd (snd
     (parse_prelogin_xml example_base64 example_session saml_redirect_response field_context)))) \<noteq> None"
proof -
  have a: "xmlnode_is_named saml_redirect_response ''prelogin-response''"
    by (simp add: saml_redirect_response_def prelogin_response_def xmlnode_is_named_def)
  have b: "\<exists>n \<in> set (children saml_redirect_response). saml_marker n"
    by (simp add: saml_redirect_response_def prelogin_response_def element_def saml_marker_def)
  have c: "saml_requests_decode example_base64 (children saml_redirect_response)"
    by (simp add: saml_redirect_response_def prelogin_response_def element_def
        saml_requests_decode_def example_base64_def)
  have no: "\<not> completion_signal example_context"
    by (simp add: completion_signal_def example_context_def)
  have yes: "completion_signal field_context"
    by (simp add: completion_signal_def field_context_def)
  have v: "saml_method (scanned example_base64 saml_redirect_response) = Some ''REDIRECT''"
    "saml_path (scanned example_base64 saml_redirect_response) = Some ''https://idp.example.com/sso''"
    by (simp_all add: scanned_def saml_redirect_response_def prelogin_response_def element_def
        xmlnode_get_val_def xmlnode_is_named_def prelogin_start_def example_base64_def)
  note t = saml_gate_permission_denied[OF a b c, of example_session example_context]
  note u = saml_gate_permission_denied[OF a b c, of example_session field_context]
  from t no have t1: "fst (parse_prelogin_xml example_base64 example_session saml_redirect_response
      example_context) = - EPERM" by blast
  note t2 = t[THEN conjunct2, THEN conjunct1, rule_format, OF no, THEN conjunct2]
  note u3 = u[THEN conjunct2, THEN conjunct2, rule_format, OF yes]
  from t1 t2 u3 show ?thesis by (simp add: v)
qed

text \<open>
  Claim C7. In every form the prelogin parser builds, the secret field (the second one)
  is a token field exactly when no token generator is registered for it (asked before
  its type is set), the context has no alternative secret, and the response supplies a
  password label other than \<open>Password\<close>; in every other case it is a password field.
\<close>

theorem secret_kind_token:
  assumes "xmlnode_is_named root ''prelogin-response''"
    and "fst (parse_prelogin_xml base64_decode vpninfo root ctx) = 0"
  shows "\<exists>frm user secret.
    form (fst (snd (snd (parse_prelogin_xml base64_decode vpninfo root ctx)))) = Some frm \<and>
    opts frm = [user, secret] \<and>
    (opt_type secret = OC_FORM_OPT_TOKEN \<longleftrightarrow>
       \<not> has_token_generator vpninfo
           (frm\<lparr>opts := [user, secret\<lparr>opt_type := OC_FORM_OPT_UNSET\<rparr>]\<rparr>)
           (secret\<lparr>opt_type := OC_FORM_OPT_UNSET\<rparr>) \<and>
       alt_secret ctx = None \<and>
       (\<exists>l. server_label ''password-label'' (children root) = Some l \<and> l \<noteq> ''Password'')) \<and>
    (opt_type secret \<noteq> OC_FORM_OPT_TOKEN \<longrightarrow> opt_type secret = OC_FORM_OPT_PASSWORD)"
proof -
  let ?v = "scanned base64_decode root"
  have ok: "fst (prelogin_scan base64_decode (children root) prelogin_start) = 0"
  proof (rule ccontr)
    assume "fst (prelogin_scan base64_decode (children root) prelogin_start) \<noteq> 0"
    then have "fst (parse_prelogin_xml base64_decode vpninfo root ctx) \<noteq> 0"
      using assms(1)
      by (cases "prelogin_scan base64_decode (children root) prelogin_start")
         (simp add: parse_prelogin_xml_def)
    with assms(2) show False by simp
  qed
  note p = parse_prelogin_xml_result[OF assms(1) ok, of vpninfo ctx]
  have gate: "fst (saml_gate ctx ?v) = 0"
    using assms(2) unfolding p by (simp add: Let_def split: if_splits)
  have frm: "form (fst (snd (snd (parse_prelogin_xml base64_decode vpninfo root ctx)))) =
      Some (build_login_form vpninfo ctx ?v)"
    unfolding p by (simp add: Let_def gate)
  have lbl: "password_label ?v = server_label ''password-label'' (children root)"
    unfolding scanned_def server_label_def
    using scan_password_label[OF ok] by (simp add: prelogin_start_def)
  let ?secret = "(secret_opt ctx ?v)\<lparr>opt_type := secret_type vpninfo ctx ?v\<rparr>"
  have unset: "?secret\<lparr>opt_type := OC_FORM_OPT_UNSET\<rparr> = secret_opt ctx ?v"
    by (simp add: secret_opt_def)
  have f0: "(build_login_form vpninfo ctx ?v)\<lparr>opts := [user_opt ctx ?v, secret_opt ctx ?v]\<rparr>
      = new_login_form ctx ?v"
    by (simp add: build_login_form_def new_login_form_def)
  have "opts (build_login_form vpninfo ctx ?v) = [user_opt ctx ?v, ?secret] \<and>
    (opt_type ?secret = OC_FORM_OPT_TOKEN \<longleftrightarrow>
       \<not> has_token_generator vpninfo
           ((build_login_form vpninfo ctx ?v)\<lparr>opts := [user_opt ctx ?v, ?secret\<lparr>opt_type := OC_FORM_OPT_UNSET\<rparr>]\<rparr>)
           (?secret\<lparr>opt_type := OC_FORM_OPT_UNSET\<rparr>) \<and>
       alt_secret ctx = None \<and>
       (\<exists>l. server_label ''password-label'' (children root) = Some l \<and> l \<noteq> ''Password'')) \<and>
    (opt_type ?secret \<noteq> OC_FORM_OPT_TOKEN \<longrightarrow> opt_type ?secret = OC_FORM_OPT_PASSWORD)"
    unfolding unset f0
    by (auto simp: build_login_form_def secret_type_def can_gen_tokencode_def lbl[symmetric])
  with frm show ?thesis by blast
qed


definition passcode_response :: xmlNode where
  "passcode_response =
     prelogin_response [element ''username-label'' ''User ID'', element ''password-label'' ''Passcode'']"

theorem secret_kind_token_witness:
  "\<exists>frm user secret.
     form (fst (snd (snd (parse_prelogin_xml example_base64 example_session passcode_response
       example_context)))) = Some frm \<and>
     opts frm = [user, secret] \<and> opt_type secret = OC_FORM_OPT_TOKEN \<and>
     opt_label user = ''User ID: '' \<and> opt_label secret = ''Passcode: ''"
proof -
  let ?r = "parse_prelogin_xml example_base64 example_session passcode_response example_context"
  have a: "xmlnode_is_named passcode_response ''prelogin-response''"
    by (simp add: passcode_response_def prelogin_response_def xmlnode_is_named_def)
  have b: "fst ?r = 0"
    by (simp add: parse_prelogin_xml_def passcode_response_def prelogin_response_def element_def
        xmlnode_is_named_def xmlnode_get_val_def prelogin_start_def saml_gate_def)
  have frm: "form (fst (snd (snd ?r))) =
      Some (build_login_form example_session example_context (scanned example_base64 passcode_response))"
    by (simp add: parse_prelogin_xml_def passcode_response_def prelogin_response_def element_def
        xmlnode_is_named_def xmlnode_get_val_def prelogin_start_def saml_gate_def scanned_def)
  have lbl: "server_label ''password-label'' (children passcode_response) = Some ''Passcode''"
    by (simp add: server_label_def passcode_response_def prelogin_response_def element_def
        xmlnode_is_named_def xmlnode_get_val_def)
  have gen: "\<not> has_token_generator example_session f x" for f x
    by (simp add: example_session_def)
  have alt: "alt_secret example_context = None" by (simp add: example_context_def)
  from secret_kind_token[OF a b] obtain frm user secret where
    f: "form (fst (snd (snd ?r))) = Some frm" and o: "opts frm = [user, secret]"
    and t: "opt_type secret = OC_FORM_OPT_TOKEN \<longleftrightarrow>
       \<not> has_token_generator example_session
           (frm\<lparr>opts := [user, secret\<lparr>opt_type := OC_FORM_OPT_UNSET\<rparr>]\<rparr>)
           (secret\<lparr>opt_type := OC_FORM_OPT_UNSET\<rparr>) \<and>
       alt_secret example_context = None \<and>
       (\<exists>l. server_label ''password-label'' (children passcode_response) = Some l \<and> l \<noteq> ''Password'')"
    by blast
  from t gen alt lbl have tok: "opt_type secret = OC_FORM_OPT_TOKEN" by simp
  from f frm have "frm = build_login_form example_session example_context
      (scanned example_base64 passcode_response)" by simp
  with o have "opt_label user = ''User ID: '' \<and> opt_label secret = ''Passcode: ''"
    by (auto simp: build_login_form_def new_login_form_def user_opt_def secret_opt_def scanned_def
        passcode_response_def prelogin_response_def element_def
        xmlnode_is_named_def xmlnode_get_val_def prelogin_start_def example_context_def)
  with f o tok show ?thesis by blast
qed




subsection \<open>The collaborators of the login loop\<close>

text \<open>
  What a callback returns: its status, the session, the context and what it printed;
  \<open>None\<close> when the C code would read through a null pointer.
\<close>

type_synonym 'c cb_result = "(int \<times> openconnect_info \<times> 'c \<times> progress_msg list) option"

text \<open>
  Modelled from the spec: the response classifier \<open>gpst_xml_or_error\<close> decides whether a
  response body is a protocol-relevant XML document, a JavaScript-embedded challenge or
  an error, and dispatches to the right parser. The body is given classified. Without a
  callback for it a challenge is \<open>-EINVAL\<close>, and a document is a success only as
  \<open><response status="success">\<close> (the logout case, line 770).
\<close>

datatype response = Xml_document xmlNode | Js_challenge string string | Error_response int

definition gpst_xml_or_error ::
  "openconnect_info \<Rightarrow> response
     \<Rightarrow> (openconnect_info \<Rightarrow> xmlNode \<Rightarrow> 'c \<Rightarrow> 'c cb_result) option
     \<Rightarrow> (openconnect_info \<Rightarrow> string \<Rightarrow> string \<Rightarrow> 'c \<Rightarrow> 'c cb_result) option
     \<Rightarrow> 'c \<Rightarrow> 'c cb_result" where
  "gpst_xml_or_error vpninfo body xml_cb challenge_cb cb_data =
     (case body of
        Xml_document xml_node \<Rightarrow>
          (case xml_cb of
             Some cb \<Rightarrow> cb vpninfo xml_node cb_data
           | None \<Rightarrow>
               Some (if xmlnode_is_named xml_node ''response''
                        \<and> map_of (properties xml_node) ''status'' = Some ''success''
                     then 0 else - EINVAL, vpninfo, cb_data, []))
      | Js_challenge prmpt inputStr \<Rightarrow>
          (case challenge_cb of
             Some cb \<Rightarrow> cb vpninfo prmpt inputStr cb_data
           | None \<Rightarrow> Some (- EINVAL, vpninfo, cb_data, []))
      | Error_response err \<Rightarrow> Some (err, vpninfo, cb_data, []))"

text \<open>What \<open>do_https_request\<close> returns: its status and, in \<open>xml_buf\<close>, the body.\<close>

record https_reply =
  https_status :: int
  https_body :: response

text \<open>
  Modelled from the spec: \<open>process_auth_form\<close> presents a form and returns the filled
  values or a cancellation. The answer of the user is its status, a value for each field
  in order, and the gateway picked in a selection, which it leaves in
  \<open>vpninfo->authgroup\<close>. Hidden fields carry their value and are not asked.
\<close>

record form_answer =
  answer_status :: int
  answer_values :: "string option list"
  answer_group :: "string option"

fun fill_opts :: "string option list \<Rightarrow> oc_form_opt list \<Rightarrow> oc_form_opt list" where
  "fill_opts (v # vs) (fld # flds) =
     (if opt_type fld = OC_FORM_OPT_HIDDEN then fld else fld\<lparr>opt_value := v\<rparr>) # fill_opts vs flds"
| "fill_opts vs flds = flds"

definition process_auth_form ::
  "form_answer \<Rightarrow> openconnect_info \<Rightarrow> oc_auth_form \<Rightarrow> int \<times> openconnect_info \<times> oc_auth_form" where
  "process_auth_form answer vpninfo frm =
     (answer_status answer,
      (case answer_group answer of None \<Rightarrow> vpninfo | Some g \<Rightarrow> vpninfo\<lparr>authgroup := Some g\<rparr>),
      frm\<lparr>opts := fill_opts (answer_values answer) (opts frm)\<rparr>)"

definition OC_FORM_RESULT_CANCELLED :: int where
  "OC_FORM_RESULT_CANCELLED = 1"

text \<open>
  Modelled from the spec: \<open>nuke_opt_values\<close> clears all entered field values; a Hidden
  field was not entered and keeps its value.
\<close>

definition nuke_opt_values :: "oc_form_opt list \<Rightarrow> oc_form_opt list" where
  "nuke_opt_values flds =
     map (\<lambda>fld. if opt_type fld = OC_FORM_OPT_HIDDEN then fld else fld\<lparr>opt_value := None\<rparr>) flds"

text \<open>
  Modelled from the spec: \<open>handle_redirect\<close> rewrites the session's target host to the
  host of \<open>redirect_url\<close>; its status is the collaborator's.
\<close>

definition handle_redirect :: "int \<Rightarrow> openconnect_info \<Rightarrow> int \<times> openconnect_info" where
  "handle_redirect status vpninfo =
     (status,
      if status = 0
      then vpninfo\<lparr>hostname := drop 8 (case redirect_url vpninfo of Some u \<Rightarrow> u | None \<Rightarrow> []),
                   redirect_url := None\<rparr>
      else vpninfo)"

subsection \<open>challenge\_cb\<close>

text \<open>
  The form in the context becomes the challenge form. The fields are reached as
  \<open>form->opts\<close> and \<open>form->opts->next\<close>: a context without a form, or a form with
  fewer than two fields, is a null pointer read.
\<close>

definition challenge_cb :: "openconnect_info \<Rightarrow> string \<Rightarrow> string \<Rightarrow> login_context \<Rightarrow> login_context cb_result" where
  "challenge_cb vpninfo prmpt inputStr cb_data =
     (case form cb_data of
        None \<Rightarrow> None
      | Some frm \<Rightarrow>
          (case opts frm of
             fld # fld2 # rest \<Rightarrow>
               (let hidden = fld\<lparr>opt_type := OC_FORM_OPT_HIDDEN\<rparr>;
                    cleared = fld2\<lparr>opt_value := None\<rparr>;
                    asked = frm\<lparr>opts := hidden # cleared # rest\<rparr>;
                    secret = cleared
                      \<lparr>opt_type :=
                         (if can_gen_tokencode vpninfo asked cleared = 0
                             \<and> opt_type cleared = OC_FORM_OPT_PASSWORD
                          then OC_FORM_OPT_TOKEN else OC_FORM_OPT_PASSWORD),
                       opt_label := ''Challenge: ''\<rparr>;
                    challenge = \<lparr>message = prmpt, auth_id = ''_challenge'',
                      action = Some inputStr, opts = hidden # secret # rest\<rparr>
                in Some (- EAGAIN, vpninfo, cb_data\<lparr>form := Some challenge\<rparr>,
                         [Challenge_form challenge inputStr]))
           | _ \<Rightarrow> None))"

subsection \<open>parse\_portal\_xml\<close>

text \<open>
  Lines 435 to 442: \<open>gateways\<close> ends as the last \<open>list\<close> under an \<open>external\<close> under a
  \<open>gateways\<close> child of a \<open>policy\<close> root.
\<close>

definition gateway_lists :: "xmlNode \<Rightarrow> xmlNode list" where
  "gateway_lists xml_node =
     (if xmlnode_is_named xml_node ''policy'' then
        [x3. x \<leftarrow> children xml_node, xmlnode_is_named x ''gateways'',
             x2 \<leftarrow> children x, xmlnode_is_named x2 ''external'',
             x3 \<leftarrow> children x2, xmlnode_is_named x3 ''list'']
      else [])"

definition find_gateways :: "xmlNode \<Rightarrow> xmlNode option" where
  "find_gateways xml_node =
     (case gateway_lists xml_node of [] \<Rightarrow> None | x3 # later \<Rightarrow> Some (last (x3 # later)))"

text \<open>
  The arithmetic of C on \<open>int\<close>: a result out of range is undefined in C and wraps here,
  and division truncates toward zero.
\<close>

definition int32 :: "int \<Rightarrow> int" where
  "int32 i = (i + 2147483648) mod 4294967296 - 2147483648"

definition c_div :: "int \<Rightarrow> int \<Rightarrow> int" where
  "c_div a b = (if (a < 0) = (b < 0) then \<bar>a\<bar> div \<bar>b\<bar> else - (\<bar>a\<bar> div \<bar>b\<bar>))"

text \<open>
  \<open>atoi\<close> of the C library: white space is skipped, then an optional sign and the
  decimal digits that follow are read; what comes after them is ignored, and a text
  without digits is 0.
\<close>

definition isspace :: "char \<Rightarrow> bool" where
  "isspace c = ((of_char c :: nat) = 32 \<or> (9 \<le> (of_char c :: nat) \<and> (of_char c :: nat) \<le> 13))"

definition isdigit :: "char \<Rightarrow> bool" where
  "isdigit c = (48 \<le> (of_char c :: nat) \<and> (of_char c :: nat) \<le> 57)"

fun digits :: "string \<Rightarrow> int \<Rightarrow> int" where
  "digits [] n = n"
| "digits (c # cs) n = (if isdigit c then digits cs (n * 10 + (int (of_char c) - 48)) else n)"

definition atoi :: "string \<Rightarrow> int" where
  "atoi nptr =
     (case dropWhile isspace nptr of
        [] \<Rightarrow> 0
      | c # cs \<Rightarrow>
          if c = CHR ''-'' then int32 (- digits cs 0)
          else if c = CHR ''+'' then int32 (digits cs 0)
          else int32 (digits (c # cs) 0))"

text \<open>
  Lines 444 to 456, for one child of \<open>hip-collection\<close>: a \<open>hip-report-interval\<close> with
  content sets the HIP report interval of the session, unless one is set already, and
  is reported either way. (The variable \<open>hip_interval\<close> is read only right after it
  was stored.)
\<close>

definition hip_child ::
  "openconnect_info \<times> progress_msg list \<Rightarrow> xmlNode \<Rightarrow> openconnect_info \<times> progress_msg list" where
  "hip_child acc x2 =
     (case acc of
        (vpninfo, out) \<Rightarrow>
          (case xmlnode_get_val x2 ''hip-report-interval'' None of
             (r, hip_interval) \<Rightarrow>
               if r \<noteq> 0 then (vpninfo, out)
               else
                 (let sec = atoi (case hip_interval of Some str \<Rightarrow> str | None \<Rightarrow> []) in
                  if trojan_interval vpninfo \<noteq> 0
                  then (vpninfo,
                        out @ [Hip_interval_ignored (c_div sec 60) (c_div (trojan_interval vpninfo) 60)])
                  else (vpninfo\<lparr>trojan_interval := int32 (sec - 60)\<rparr>,
                        out @ [Hip_interval_set (c_div sec 60)]))))"

text \<open>
  Lines 457 to 470, for a child that is neither \<open>gateways\<close> nor \<open>hip-collection\<close>: the
  two portal cookies go into the context, an empty one or the text \<open>empty\<close> as null.
  (The portal name is only used for the server list handed to \<open>write_new_config\<close>, whose
  text is not modelled.)
\<close>

definition portal_cookie :: "xmlNode \<Rightarrow> string \<Rightarrow> string option \<Rightarrow> string option" where
  "portal_cookie x name var =
     (case xmlnode_get_val x name var of
        (r, v) \<Rightarrow> if r = 0 \<and> (v = Some [] \<or> v = Some ''empty'') then None else v)"

text \<open>Lines 436 to 472: one child of the \<open>policy\<close> root.\<close>

definition portal_child ::
  "openconnect_info \<times> login_context \<times> progress_msg list \<Rightarrow> xmlNode
     \<Rightarrow> openconnect_info \<times> login_context \<times> progress_msg list" where
  "portal_child acc x =
     (case acc of
        (vpninfo, ctx, out) \<Rightarrow>
          if xmlnode_is_named x ''gateways'' then (vpninfo, ctx, out)
          else if xmlnode_is_named x ''hip-collection'' then
            (case foldl hip_child (vpninfo, out) (children x) of
               (vpninfo1, out1) \<Rightarrow> (vpninfo1, ctx, out1))
          else
            (vpninfo,
             ctx\<lparr>portal_userauthcookie :=
                   portal_cookie x ''portal-userauthcookie'' (portal_userauthcookie ctx),
                 portal_prelogonuserauthcookie :=
                   portal_cookie x ''portal-prelogonuserauthcookie'' (portal_prelogonuserauthcookie ctx)\<rparr>,
             out))"

definition portal_scan ::
  "xmlNode \<Rightarrow> openconnect_info \<Rightarrow> login_context
     \<Rightarrow> openconnect_info \<times> login_context \<times> progress_msg list" where
  "portal_scan xml_node vpninfo ctx =
     (if xmlnode_is_named xml_node ''policy''
      then foldl portal_child (vpninfo, ctx, []) (children xml_node)
      else (vpninfo, ctx, []))"

text \<open>Lines 493 to 529: one choice for each \<open>entry\<close> child of the list, in order.\<close>

definition gateway_choice :: "xmlNode \<Rightarrow> oc_choice" where
  "gateway_choice x =
     \<lparr>choice_name = snd (xmlnode_get_prop x ''name'' None),
      choice_label = foldl (\<lambda>label x2. snd (xmlnode_get_val x2 ''description'' label)) None (children x)\<rparr>"

definition gateway_choices :: "xmlNode \<Rightarrow> oc_choice list" where
  "gateway_choices gateways =
     map gateway_choice (filter (\<lambda>x. xmlnode_is_named x ''entry'') (children gateways))"

text \<open>Lines 411 to 426 and 498 to 525: the form, with its one field and the choices.\<close>

definition gateway_form :: "oc_choice list \<Rightarrow> oc_auth_form" where
  "gateway_form choices =
     \<lparr>message = ''Please select GlobalProtect gateway.'',
      auth_id = ''_portal'',
      action = None,
      opts = [\<lparr>opt_type = OC_FORM_OPT_SELECT, opt_name = ''gateway'', opt_label = ''GATEWAY:'',
               opt_value = None, opt_choices = choices\<rparr>]\<rparr>"

text \<open>
  How a call of \<open>parse_portal_xml\<close> ends: it returns a status, or it reads through a
  null pointer; either way with the session, the context and what was printed so far.
\<close>

datatype portal_result =
    Portal_return int openconnect_info login_context "progress_msg list"
  | Portal_null_read openconnect_info login_context "progress_msg list"

text \<open>
  Lines 536 to 558, once there is a choice: the default gateway, the server list, the
  selection by the user and the redirect. \<open>strdup\<close> of a first choice without a name is
  a null pointer read. The collaborators \<open>process_auth_form\<close> and \<open>handle_redirect\<close> are
  arguments, each with the session it is called on and, for the first, the form.
\<close>

definition select_gateway ::
  "(openconnect_info \<Rightarrow> oc_auth_form \<Rightarrow> int \<times> openconnect_info \<times> oc_auth_form)
     \<Rightarrow> (openconnect_info \<Rightarrow> int \<times> openconnect_info)
     \<Rightarrow> openconnect_info \<Rightarrow> login_context \<Rightarrow> oc_choice list
     \<Rightarrow> progress_msg list \<Rightarrow> portal_result" where
  "select_gateway ask redirect vpninfo ctx choices out =
     (case (if authgroup vpninfo = None then choice_name (hd choices) else authgroup vpninfo) of
        None \<Rightarrow> Portal_null_read vpninfo ctx out
      | Some grp \<Rightarrow>
          (let vpninfo1 = vpninfo\<lparr>authgroup := Some grp\<rparr> in
           if write_new_config vpninfo1 \<noteq> None \<and> write_new_config vpninfo1 \<noteq> Some 0
           then Portal_return (the (write_new_config vpninfo1)) vpninfo1 ctx out
           else
             (case ask vpninfo1 (gateway_form choices) of
                (result, vpninfo2, filled) \<Rightarrow>
                  if result = OC_FORM_RESULT_CANCELLED \<or> result < 0
                  then Portal_return result vpninfo2 ctx out
                  else
                    (case redirect
                        (vpninfo2\<lparr>redirect_url :=
                           Some (''https://'' @ (case authgroup vpninfo2 of Some g \<Rightarrow> g | None \<Rightarrow> ''(null)''))\<rparr>) of
                       (result2, vpninfo3) \<Rightarrow> Portal_return result2 vpninfo3 ctx out))))"

definition parse_portal_xml ::
  "(openconnect_info \<Rightarrow> oc_auth_form \<Rightarrow> int \<times> openconnect_info \<times> oc_auth_form)
     \<Rightarrow> (openconnect_info \<Rightarrow> int \<times> openconnect_info)
     \<Rightarrow> openconnect_info \<Rightarrow> xmlNode \<Rightarrow> login_context \<Rightarrow> portal_result" where
  "parse_portal_xml ask redirect vpninfo xml_node cb_data =
     (case portal_scan xml_node vpninfo cb_data of
        (vpninfo1, ctx, out0) \<Rightarrow>
          (case find_gateways xml_node of
             None \<Rightarrow> Portal_return (- EINVAL) vpninfo1 ctx out0
           | Some gateways \<Rightarrow>
               (let choices = gateway_choices gateways;
                    out = out0 @ Gateways_available (length choices)
                          # map (\<lambda>c. Gateway_server (choice_label c) (choice_name c)) choices
                in if choices = [] then Portal_return (- EINVAL) vpninfo1 ctx (out @ [No_gateway_servers])
                   else select_gateway ask redirect vpninfo1 ctx choices out)))"

text \<open>The callback as the login loop sees it.\<close>

definition portal_cb_result :: "portal_result \<Rightarrow> login_context cb_result" where
  "portal_cb_result res =
     (case res of
        Portal_return result vpninfo ctx out \<Rightarrow> Some (result, vpninfo, ctx, out)
      | Portal_null_read vpninfo ctx out \<Rightarrow> None)"

subsection \<open>The gateways of a portal response\<close>









subsection \<open>Example portal responses\<close>

definition gateway_entry :: "string \<Rightarrow> string \<Rightarrow> xmlNode" where
  "gateway_entry host label =
     XmlNode XML_ELEMENT_NODE ''entry'' [(''name'', host)] (Some label) [element ''description'' label]"

definition policy_response :: "xmlNode list \<Rightarrow> xmlNode" where
  "policy_response entries =
     XmlNode XML_ELEMENT_NODE ''policy'' [] (Some [])
       [XmlNode XML_ELEMENT_NODE ''gateways'' [] (Some [])
         [XmlNode XML_ELEMENT_NODE ''external'' [] (Some [])
           [XmlNode XML_ELEMENT_NODE ''list'' [] (Some []) entries]]]"

definition two_gateways :: "xmlNode list" where
  "two_gateways = [gateway_entry ''gw1.example.com'' ''East'', gateway_entry ''gw2.example.com:443'' ''West'']"


definition pick_second :: form_answer where
  "pick_second = \<lparr>answer_status = 0, answer_values = [], answer_group = Some ''gw2.example.com:443''\<rparr>"














subsection \<open>gpst\_bye\<close>

text \<open>
  The logout request carries the stored cookie; the reply of \<open>do_https_request\<close> is
  classified without callbacks, the outcome is printed, and the status is returned.
  The path of the session is put back, so the session comes out as it went in.
\<close>

definition gpst_bye :: "openconnect_info \<Rightarrow> https_reply \<Rightarrow> int \<times> openconnect_info \<times> progress_msg list" where
  "gpst_bye vpninfo reply =
     (let result =
            (if https_status reply \<ge> 0 then
               (case gpst_xml_or_error vpninfo (https_body reply) None None () of
                  Some (r, v, c, out) \<Rightarrow> r
                | None \<Rightarrow> - EINVAL)
             else https_status reply)
      in (result, vpninfo, [if result < 0 then Logout_failed else Logout_successful]))"

subsection \<open>gpst\_login\<close>

text \<open>
  The locals and arguments of \<open>gpst_login\<close> that live across its loop, and a trace of
  what it did: the requests it sent, the forms it showed, every assignment to
  \<open>ctx->username\<close> on line 670 and every blind retry armed on line 682. A prelogin
  request is recorded with the value of \<open>portal\<close>, a login or getconfig request with
  the values of \<open>portal\<close> and \<open>blind_retry\<close> at the time it is sent.
\<close>

datatype event =
    Ev_prelogin bool
  | Ev_form_shown oc_auth_form
  | Ev_submit bool bool
  | Ev_username_saved string
  | Ev_blind_retry
  | Ev_printed progress_msg

record login_state =
  portal :: bool
  blind_retry :: bool
  session :: openconnect_info
  login_ctx :: login_context
  trace :: "event list"

text \<open>
  What the collaborators answer during one pass from a label of the loop to the next
  jump: the reply to the prelogin request, the user's answer to the login form, the status
  of \<open>do_gen_tokencode\<close>, the reply to the login or getconfig request, and, for
  \<open>parse_portal_xml\<close>, the user's choice of gateway and the status of the redirect. A
  pass that does not reach one of these calls does not look at its answer. The request
  bodies and paths the loop builds are not modelled: the replies are given.
\<close>

record round =
  prelogin_reply :: https_reply
  login_answer :: form_answer
  tokencode_status :: int
  submit_reply :: https_reply
  gateway_answer :: form_answer
  redirect_status :: int

datatype entry = Loop_top | Got_form | Replay_form

datatype flow = Goto entry login_state | Return int login_state | Fault login_state

definition run_callback :: "login_context cb_result \<Rightarrow> login_state \<Rightarrow> (int \<times> login_state) option" where
  "run_callback res st =
     (case res of
        None \<Rightarrow> None
      | Some (result, vpninfo, ctx, out) \<Rightarrow>
          Some (result, st\<lparr>session := vpninfo, login_ctx := ctx,
                           trace := trace st @ map Ev_printed out\<rparr>))"

text \<open>Lines 669 and 670; \<open>strdup\<close> of a null value is a null pointer read.\<close>

definition save_username :: "login_state \<Rightarrow> login_state option" where
  "save_username st =
     (if username (login_ctx st) \<noteq> None then Some st
      else case form (login_ctx st) of
        None \<Rightarrow> None
      | Some frm \<Rightarrow>
          (case opts frm of
             [] \<Rightarrow> None
           | fld # flds \<Rightarrow>
               (case opt_value fld of
                  None \<Rightarrow> None
                | Some name \<Rightarrow>
                    Some (st\<lparr>login_ctx := (login_ctx st)\<lparr>username := Some name\<rparr>,
                             trace := trace st @ [Ev_username_saved name]\<rparr>))))"

text \<open>Lines 658 to 687: what the loop does with the status of the submitted form.\<close>

definition after_submit :: "int \<Rightarrow> login_state \<Rightarrow> flow" where
  "after_submit result st =
     (if result = - EACCES then
        (case form (login_ctx st) of
           None \<Rightarrow> Fault st
         | Some frm \<Rightarrow>
             (let st1 = st\<lparr>login_ctx := (login_ctx st)\<lparr>form := Some (frm\<lparr>opts := nuke_opt_values (opts frm)\<rparr>)\<rparr>\<rparr>
              in if \<not> blind_retry st1 then Goto Got_form st1
                 else Goto Loop_top (st1\<lparr>blind_retry := False\<rparr>)))
      else
        (case save_username st of
           None \<Rightarrow> Fault st
         | Some st1 \<Rightarrow>
             if result = - EAGAIN then Goto Got_form st1
             else if portal st1 \<and> result = 0 then
               (let st2 = st1\<lparr>portal := False\<rparr> in
                if portal_userauthcookie (login_ctx st2) \<noteq> None
                   \<or> portal_prelogonuserauthcookie (login_ctx st2) \<noteq> None
                   \<or> (map_option auth_id (form (login_ctx st2)) \<noteq> Some ''_challenge''
                       \<and> alt_secret (login_ctx st2) = None)
                then Goto Replay_form (st2\<lparr>blind_retry := True, trace := trace st2 @ [Ev_blind_retry]\<rparr>)
                else Goto Loop_top st2)
             else Return result st1))"

text \<open>Lines 617 to 657, from \<open>replay_form\<close>: the token code and the request.\<close>

definition submit_step :: "(string \<Rightarrow> string) \<Rightarrow> round \<Rightarrow> login_state \<Rightarrow> flow" where
  "submit_step urldecode rd st =
     (if tokencode_status rd \<noteq> 0 then
        Return (tokencode_status rd)
          (st\<lparr>session := (session st)\<lparr>token_bypassed := True\<rparr>,
              trace := trace st @ [Ev_printed Tokencode_failed]\<rparr>)
      else
        (let st1 = st\<lparr>trace := trace st @ [Ev_submit (portal st) (blind_retry st)]\<rparr> in
         if https_status (submit_reply rd) < 0 then after_submit (https_status (submit_reply rd)) st1
         else
           (case run_callback
                   (gpst_xml_or_error (session st1) (https_body (submit_reply rd))
                      (Some (if portal st1
                             then (\<lambda>vpninfo xml_node ctx.
                                     portal_cb_result
                                       (parse_portal_xml (process_auth_form (gateway_answer rd))
                                          (handle_redirect (redirect_status rd)) vpninfo xml_node ctx))
                             else (\<lambda>vpninfo xml_node ctx. Some (parse_login_xml urldecode vpninfo xml_node ctx))))
                      (Some challenge_cb) (login_ctx st1)) st1 of
              None \<Rightarrow> Fault st1
            | Some (result, st2) \<Rightarrow> after_submit result st2)))"

text \<open>Lines 610 to 614, from \<open>got_form\<close>: the form goes to the user.\<close>

definition form_step :: "(string \<Rightarrow> string) \<Rightarrow> round \<Rightarrow> login_state \<Rightarrow> flow" where
  "form_step urldecode rd st =
     (case form (login_ctx st) of
        None \<Rightarrow> Fault st
      | Some frm \<Rightarrow>
          (case process_auth_form (login_answer rd) (session st) frm of
             (result, vpninfo, filled) \<Rightarrow>
               (let st1 = st\<lparr>session := vpninfo, login_ctx := (login_ctx st)\<lparr>form := Some filled\<rparr>,
                              trace := trace st @ [Ev_form_shown frm]\<rparr>
                in if result \<noteq> 0 then Return result st1 else submit_step urldecode rd st1)))"

text \<open>Lines 583 to 608, from the top of the loop: the prelogin request.\<close>

definition prelogin_step ::
  "(string \<Rightarrow> string) \<Rightarrow> (string \<Rightarrow> string option) \<Rightarrow> round \<Rightarrow> login_state \<Rightarrow> flow" where
  "prelogin_step urldecode base64_decode rd st =
     (let st1 = st\<lparr>trace := trace st @ [Ev_prelogin (portal st)]\<rparr> in
      if https_status (prelogin_reply rd) < 0 then Return (https_status (prelogin_reply rd)) st1
      else
        (case run_callback
                (gpst_xml_or_error (session st1) (https_body (prelogin_reply rd))
                   (Some (\<lambda>vpninfo xml_node ctx.
                            Some (parse_prelogin_xml base64_decode vpninfo xml_node ctx)))
                   None (login_ctx st1)) st1 of
           None \<Rightarrow> Fault st1
         | Some (result, st2) \<Rightarrow>
             if result \<noteq> 0 then Return result st2 else form_step urldecode rd st2))"

definition pass ::
  "(string \<Rightarrow> string) \<Rightarrow> (string \<Rightarrow> string option) \<Rightarrow> entry \<Rightarrow> round \<Rightarrow> login_state \<Rightarrow> flow" where
  "pass urldecode base64_decode at rd st =
     (case at of
        Loop_top \<Rightarrow> prelogin_step urldecode base64_decode rd st
      | Got_form \<Rightarrow> form_step urldecode rd st
      | Replay_form \<Rightarrow> submit_step urldecode rd st)"

text \<open>
  The loop: one pass for each round of answers. \<open>Blocked\<close> is a loop still waiting for a
  collaborator when the answers end; it carries the state reached.
\<close>

datatype login_outcome =
    Returned int login_state "round list"
  | Faulted login_state
  | Blocked login_state

fun gpst_login_loop ::
  "(string \<Rightarrow> string) \<Rightarrow> (string \<Rightarrow> string option) \<Rightarrow> entry \<Rightarrow> round list \<Rightarrow> login_state
     \<Rightarrow> login_outcome" where
  "gpst_login_loop urldecode base64_decode at [] st = Blocked st"
| "gpst_login_loop urldecode base64_decode at (rd # rds) st =
     (case pass urldecode base64_decode at rd st of
        Goto nxt st1 \<Rightarrow> gpst_login_loop urldecode base64_decode nxt rds st1
      | Return result st1 \<Rightarrow> Returned result st1 rds
      | Fault st1 \<Rightarrow> Faulted st1)"

definition gpst_login ::
  "(string \<Rightarrow> string) \<Rightarrow> (string \<Rightarrow> string option) \<Rightarrow> openconnect_info \<Rightarrow> bool \<Rightarrow> login_context
     \<Rightarrow> event list \<Rightarrow> round list \<Rightarrow> login_outcome" where
  "gpst_login urldecode base64_decode vpninfo is_portal ctx before rounds =
     gpst_login_loop urldecode base64_decode Loop_top rounds
       \<lparr>portal = is_portal, blind_retry = False, session = vpninfo, login_ctx = ctx, trace = before\<rparr>"

subsection \<open>gpst\_obtain\_cookie\<close>

text \<open>Lines 706 to 710: the path is cut at its last colon, and what follows is the field.\<close>

definition split_alt_secret :: "string \<Rightarrow> string \<times> string option" where
  "split_alt_secret path =
     (if CHR '':'' \<in> set path then
        (let tail = rev (takeWhile (\<lambda>c. c \<noteq> CHR '':'') (rev path))
         in (take (length path - length tail - 1) path, Some tail))
      else (path, None))"

definition path_is_portal :: "string \<Rightarrow> bool" where
  "path_is_portal path = (path = ''portal'' \<or> take 14 path = ''global-protect'')"

definition path_is_gateway :: "string \<Rightarrow> bool" where
  "path_is_gateway path = (path = ''gateway'' \<or> take 7 path = ''ssl-vpn'')"

definition gpst_obtain_cookie ::
  "(string \<Rightarrow> string) \<Rightarrow> (string \<Rightarrow> string option) \<Rightarrow> openconnect_info \<Rightarrow> round list \<Rightarrow> login_outcome" where
  "gpst_obtain_cookie urldecode base64_decode vpninfo rounds =
     (let cut = map_option split_alt_secret (urlpath vpninfo);
          vpninfo1 = vpninfo\<lparr>urlpath := map_option fst cut\<rparr>;
          ctx = \<lparr>username = None, alt_secret = Option.bind cut snd, portal_userauthcookie = None,
                 portal_prelogonuserauthcookie = None, form = None\<rparr>
      in if (case urlpath vpninfo1 of Some path \<Rightarrow> path_is_portal path | None \<Rightarrow> False) then
           gpst_login urldecode base64_decode vpninfo1 True ctx [] rounds
         else if (case urlpath vpninfo1 of Some path \<Rightarrow> path_is_gateway path | None \<Rightarrow> False) then
           gpst_login urldecode base64_decode vpninfo1 False ctx [] rounds
         else
           (case gpst_login urldecode base64_decode vpninfo1 True ctx [] rounds of
              Returned result st rest \<Rightarrow>
                if result = - EEXIST then
                  (case gpst_login urldecode base64_decode (session st) False (login_ctx st) (trace st) rest of
                     Returned result2 st2 rest2 \<Rightarrow>
                       Returned result2
                         (if result2 = - EEXIST
                          then st2\<lparr>trace := trace st2 @ [Ev_printed Neither_portal_nor_gateway]\<rparr>
                          else st2) rest2
                   | other \<Rightarrow> other)
                else Returned result st rest
            | other \<Rightarrow> other))"




subsection \<open>The status of a failed logout\<close>

text \<open>
  A body that lacks the XML success status, and the status the classifier gives a body
  when it is called without callbacks, as \<open>gpst_bye\<close> calls it.
\<close>

definition lacks_success_status :: "response \<Rightarrow> bool" where
  "lacks_success_status body =
     (case body of
        Xml_document xml_node \<Rightarrow>
          \<not> (nname xml_node = ''response'' \<and> map_of (properties xml_node) ''status'' = Some ''success'')
      | Js_challenge prmpt inputStr \<Rightarrow> True
      | Error_response err \<Rightarrow> err < 0)"

definition classified :: "openconnect_info \<Rightarrow> response \<Rightarrow> int" where
  "classified vpninfo body =
     (case gpst_xml_or_error vpninfo body None None () of
        Some (r, v, c, out) \<Rightarrow> r
      | None \<Rightarrow> - EINVAL)"

definition malformed_reply :: https_reply where
  "malformed_reply = \<lparr>https_status = 0, https_body = Error_response (- EINVAL)\<rparr>"

definition error_reply :: https_reply where
  "error_reply = \<lparr>https_status = 0, https_body =
     Xml_document (XmlNode XML_ELEMENT_NODE ''response'' [(''status'', ''error'')] (Some []) [])\<rparr>"

definition logged_in_session :: openconnect_info where
  "logged_in_session = example_session\<lparr>cookie := Some [(''authcookie'', ''abc123'')]\<rparr>"

text \<open>
  Claim C8 as it is written fails: after a reply without the success status, malformed
  or an error document, \<open>gpst_bye\<close> returns the negative status, not a success status.
\<close>

theorem gpst_bye_counterexample:
  "lacks_success_status (https_body malformed_reply) \<and>
   fst (gpst_bye logged_in_session malformed_reply) = - 22 \<and>
   fst (gpst_bye logged_in_session malformed_reply) \<noteq> 0 \<and>
   lacks_success_status (https_body error_reply) \<and>
   fst (gpst_bye logged_in_session error_reply) \<noteq> 0"
  by (simp add: gpst_bye_def gpst_xml_or_error_def malformed_reply_def error_reply_def
      lacks_success_status_def xmlnode_is_named_def EINVAL_def)

text \<open>
  Claim C8, amended. For every logout whose reply arrives and whose body lacks the XML
  success status (a malformed body, a challenge, an error, a document with another
  status), \<open>gpst_bye\<close> prints that the logout failed and returns to its caller the
  negative status the classification gave; the session, its cookie included, is as it
  was.
\<close>

theorem gpst_bye_failed_logout:
  assumes "https_status reply \<ge> 0" and "lacks_success_status (https_body reply)"
  shows "fst (gpst_bye vpninfo reply) < 0 \<and>
    fst (gpst_bye vpninfo reply) = classified vpninfo (https_body reply) \<and>
    snd (snd (gpst_bye vpninfo reply)) = [Logout_failed] \<and>
    fst (snd (gpst_bye vpninfo reply)) = vpninfo \<and>
    cookie (fst (snd (gpst_bye vpninfo reply))) = cookie vpninfo"
proof -
  have neg: "classified vpninfo (https_body reply) < 0"
    using assms(2)
    by (cases "https_body reply")
       (simp_all add: classified_def gpst_xml_or_error_def lacks_success_status_def
         xmlnode_is_named_def EINVAL_def)
  have res: "fst (gpst_bye vpninfo reply) = classified vpninfo (https_body reply)"
    using assms(1) by (simp add: gpst_bye_def classified_def Let_def)
  show ?thesis using neg res by (simp add: gpst_bye_def Let_def classified_def)
qed

theorem gpst_bye_failed_logout_witness:
  "fst (gpst_bye logged_in_session error_reply) = - EINVAL \<and>
   snd (snd (gpst_bye logged_in_session error_reply)) = [Logout_failed] \<and>
   cookie (fst (snd (gpst_bye logged_in_session error_reply))) = Some [(''authcookie'', ''abc123'')]"
proof -
  have a: "https_status error_reply \<ge> 0" by (simp add: error_reply_def)
  have b: "lacks_success_status (https_body error_reply)"
    by (simp add: error_reply_def lacks_success_status_def)
  have c: "classified logged_in_session (https_body error_reply) = - EINVAL"
    by (simp add: classified_def gpst_xml_or_error_def error_reply_def xmlnode_is_named_def)
  have d: "cookie logged_in_session = Some [(''authcookie'', ''abc123'')]"
    by (simp add: logged_in_session_def)
  from gpst_bye_failed_logout[OF a b, of logged_in_session] c d show ?thesis by simp
qed




subsection \<open>Blind retries in a run\<close>

fun is_blind_retry :: "event \<Rightarrow> bool" where
  "is_blind_retry Ev_blind_retry = True"
| "is_blind_retry ev = False"

definition blind_retries :: "event list \<Rightarrow> nat" where
  "blind_retries tr = length (filter is_blind_retry tr)"

fun flow_state :: "flow \<Rightarrow> login_state" where
  "flow_state (Goto nxt st) = st"
| "flow_state (Return result st) = st"
| "flow_state (Fault st) = st"

fun outcome_state :: "login_outcome \<Rightarrow> login_state" where
  "outcome_state (Returned result st rest) = st"
| "outcome_state (Faulted st) = st"
| "outcome_state (Blocked st) = st"

text \<open>What is left to spend: a blind retry can only be armed while \<open>portal\<close> is set.\<close>

definition budget :: "login_state \<Rightarrow> nat" where
  "budget st = blind_retries (trace st) + (if portal st then 1 else 0)"

lemma blind_retries_append: "blind_retries (xs @ ys) = blind_retries xs + blind_retries ys"
  by (simp add: blind_retries_def)

lemma blind_retries_printed: "blind_retries (map Ev_printed out) = 0"
  by (induction out) (simp_all add: blind_retries_def)

lemma budget_trace:
  "blind_retries evs = 0 \<Longrightarrow> budget (st\<lparr>trace := trace st @ evs\<rparr>) = budget st"
  by (simp add: budget_def blind_retries_append)

lemma run_callback_budget:
  "run_callback res st = Some (r, st') \<Longrightarrow> budget st' = budget st"
  by (auto simp: run_callback_def budget_def blind_retries_append blind_retries_printed
      split: option.splits)

lemma save_username_budget: "save_username st = Some st' \<Longrightarrow> budget st' = budget st"
  by (auto simp: save_username_def budget_def blind_retries_append blind_retries_def
      split: option.splits list.splits if_splits)

lemma after_submit_budget: "budget (flow_state (after_submit result st)) \<le> budget st"
proof (cases "result = - EACCES")
  case True
  then show ?thesis
    by (cases "form (login_ctx st)") (simp_all add: after_submit_def Let_def budget_def)
next
  case False
  show ?thesis
  proof (cases "save_username st")
    case None
    with False show ?thesis by (simp add: after_submit_def)
  next
    case (Some st1)
    then have b: "budget st1 = budget st" by (rule save_username_budget)
    have "budget (flow_state (after_submit result st)) \<le> budget st1"
      using False Some
      by (simp add: after_submit_def Let_def budget_def blind_retries_append blind_retries_def)
    with b show ?thesis by simp
  qed
qed

lemma submit_step_budget: "budget (flow_state (submit_step urldecode rd st)) \<le> budget st"
proof (cases "tokencode_status rd \<noteq> 0")
  case True
  then show ?thesis
    by (simp add: submit_step_def budget_def blind_retries_append blind_retries_def)
next
  case False
  let ?st1 = "st\<lparr>trace := trace st @ [Ev_submit (portal st) (blind_retry st)]\<rparr>"
  have b1: "budget ?st1 = budget st" by (simp add: budget_def blind_retries_append blind_retries_def)
  show ?thesis
  proof (cases "https_status (submit_reply rd) < 0")
    case True
    with False show ?thesis
      using after_submit_budget[of "https_status (submit_reply rd)" ?st1] b1
      by (simp add: submit_step_def Let_def)
  next
    case nonneg: False
    let ?cb = "run_callback
                   (gpst_xml_or_error (session ?st1) (https_body (submit_reply rd))
                      (Some (if portal ?st1
                             then (\<lambda>vpninfo xml_node ctx.
                                     portal_cb_result
                                       (parse_portal_xml (process_auth_form (gateway_answer rd))
                                          (handle_redirect (redirect_status rd)) vpninfo xml_node ctx))
                             else (\<lambda>vpninfo xml_node ctx. Some (parse_login_xml urldecode vpninfo xml_node ctx))))
                      (Some challenge_cb) (login_ctx ?st1)) ?st1"
    show ?thesis
    proof (cases ?cb)
      case None
      with False nonneg show ?thesis using b1 by (simp add: submit_step_def Let_def)
    next
      case (Some p)
      obtain r st2 where p: "p = (r, st2)" by force
      from Some p have "budget st2 = budget ?st1" using run_callback_budget by blast
      with Some p False nonneg show ?thesis
        using after_submit_budget[of r st2] b1 by (simp add: submit_step_def Let_def)
    qed
  qed
qed

lemma form_step_budget: "budget (flow_state (form_step urldecode rd st)) \<le> budget st"
proof (cases "form (login_ctx st)")
  case None
  then show ?thesis by (simp add: form_step_def)
next
  case (Some frm)
  obtain result vpninfo filled where
    p: "process_auth_form (login_answer rd) (session st) frm = (result, vpninfo, filled)"
    by (cases "process_auth_form (login_answer rd) (session st) frm") auto
  let ?st1 = "st\<lparr>session := vpninfo, login_ctx := (login_ctx st)\<lparr>form := Some filled\<rparr>,
                              trace := trace st @ [Ev_form_shown frm]\<rparr>"
  have b1: "budget ?st1 = budget st" by (simp add: budget_def blind_retries_append blind_retries_def)
  show ?thesis
    using Some p b1 submit_step_budget[of urldecode rd ?st1]
    by (simp add: form_step_def Let_def)
qed

lemma prelogin_step_budget:
  "budget (flow_state (prelogin_step urldecode base64_decode rd st)) \<le> budget st"
proof -
  let ?st1 = "st\<lparr>trace := trace st @ [Ev_prelogin (portal st)]\<rparr>"
  have b1: "budget ?st1 = budget st" by (simp add: budget_def blind_retries_append blind_retries_def)
  show ?thesis
  proof (cases "https_status (prelogin_reply rd) < 0")
    case True
    then show ?thesis using b1 by (simp add: prelogin_step_def Let_def)
  next
    case nonneg: False
    let ?cb = "run_callback
                (gpst_xml_or_error (session ?st1) (https_body (prelogin_reply rd))
                   (Some (\<lambda>vpninfo xml_node ctx.
                            Some (parse_prelogin_xml base64_decode vpninfo xml_node ctx)))
                   None (login_ctx ?st1)) ?st1"
    show ?thesis
    proof (cases ?cb)
      case None
      with nonneg show ?thesis using b1 by (simp add: prelogin_step_def Let_def)
    next
      case (Some p)
      obtain r st2 where p: "p = (r, st2)" by force
      from Some p have "budget st2 = budget ?st1" using run_callback_budget by blast
      with Some p nonneg show ?thesis
        using form_step_budget[of urldecode rd st2] b1 by (simp add: prelogin_step_def Let_def)
    qed
  qed
qed

lemma pass_budget: "budget (flow_state (pass urldecode base64_decode at rd st)) \<le> budget st"
  by (cases at) (simp_all add: pass_def prelogin_step_budget form_step_budget submit_step_budget)

lemma loop_budget:
  "budget (outcome_state (gpst_login_loop urldecode base64_decode at rounds st)) \<le> budget st"
proof (induction rounds arbitrary: at st)
  case Nil
  show ?case by simp
next
  case (Cons rd rds)
  show ?case
  proof (cases "pass urldecode base64_decode at rd st")
    case (Goto nxt st1)
    then have "budget st1 \<le> budget st" using pass_budget[of urldecode base64_decode at rd st] by simp
    with Goto Cons.IH[of nxt st1] show ?thesis by simp
  next
    case (Return result st1)
    then show ?thesis using pass_budget[of urldecode base64_decode at rd st] by simp
  next
    case (Fault st1)
    then show ?thesis using pass_budget[of urldecode base64_decode at rd st] by simp
  qed
qed

lemma gpst_login_budget:
  "budget (outcome_state (gpst_login urldecode base64_decode vpninfo is_portal ctx before rounds))
     \<le> blind_retries before + (if is_portal then 1 else 0)"
  unfolding gpst_login_def
  using loop_budget[of urldecode base64_decode Loop_top rounds
      "\<lparr>portal = is_portal, blind_retry = False, session = vpninfo, login_ctx = ctx, trace = before\<rparr>"]
  by (simp add: budget_def)

lemma retries_le_budget: "blind_retries (trace st) \<le> budget st"
  by (simp add: budget_def)

lemma obtain_cookie_retries:
  "blind_retries (trace (outcome_state (gpst_obtain_cookie urldecode base64_decode vpninfo rounds))) \<le> 1"
proof -
  have one: "blind_retries (trace (outcome_state (gpst_login urldecode base64_decode v p c [] rs))) \<le> 1"
    for v p c rs
    using gpst_login_budget[of urldecode base64_decode v p c "[]" rs]
      retries_le_budget[of "outcome_state (gpst_login urldecode base64_decode v p c [] rs)"]
    by (simp add: blind_retries_def split: if_splits)
  have two: "blind_retries (trace (outcome_state (gpst_login urldecode base64_decode v False c before rs)))
      \<le> blind_retries before" for v c before rs
    using gpst_login_budget[of urldecode base64_decode v False c before rs]
      retries_le_budget[of "outcome_state (gpst_login urldecode base64_decode v False c before rs)"]
    by simp
  define cut where "cut = map_option split_alt_secret (urlpath vpninfo)"
  define v1 where "v1 = vpninfo\<lparr>urlpath := map_option fst cut\<rparr>"
  define c0 where "c0 = \<lparr>username = None, alt_secret = Option.bind cut snd, portal_userauthcookie = None,
                 portal_prelogonuserauthcookie = None, form = None\<rparr>"
  let ?first = "gpst_login urldecode base64_decode v1 True c0 [] rounds"
  have fallback: "blind_retries (trace (outcome_state
      (case ?first of
         Returned result st rest \<Rightarrow>
           if result = - EEXIST then
             (case gpst_login urldecode base64_decode (session st) False (login_ctx st) (trace st) rest of
                Returned result2 st2 rest2 \<Rightarrow>
                  Returned result2
                    (if result2 = - EEXIST
                     then st2\<lparr>trace := trace st2 @ [Ev_printed Neither_portal_nor_gateway]\<rparr>
                     else st2) rest2
              | other \<Rightarrow> other)
           else Returned result st rest
       | other \<Rightarrow> other))) \<le> 1"
  proof (cases ?first)
    case (Returned result st rest)
    then have f: "blind_retries (trace st) \<le> 1" using one[of v1 True c0 rounds] by simp
    let ?second = "gpst_login urldecode base64_decode (session st) False (login_ctx st) (trace st) rest"
    have s: "blind_retries (trace (outcome_state ?second)) \<le> 1"
      using two[of "session st" "login_ctx st" "trace st" rest] f by simp
    show ?thesis
    proof (cases "result = - EEXIST")
      case True
      show ?thesis
        using Returned True s
        by (cases ?second) (simp_all add: blind_retries_append blind_retries_def)
    next
      case False
      with Returned f show ?thesis by simp
    qed
  next
    case (Faulted st)
    then show ?thesis using one[of v1 True c0 rounds] by simp
  next
    case (Blocked st)
    then show ?thesis using one[of v1 True c0 rounds] by simp
  qed
  show ?thesis
    unfolding gpst_obtain_cookie_def Let_def cut_def[symmetric] v1_def[symmetric] c0_def[symmetric]
    using one fallback by (simp split: if_splits)
qed




subsection \<open>Example runs\<close>

fun outcome_status :: "login_outcome \<Rightarrow> int option" where
  "outcome_status (Returned result st rest) = Some result"
| "outcome_status (Faulted st) = None"
| "outcome_status (Blocked st) = None"

fun requests :: "event list \<Rightarrow> event list" where
  "requests [] = []"
| "requests (Ev_prelogin p # evs) = Ev_prelogin p # requests evs"
| "requests (Ev_submit p b # evs) = Ev_submit p b # requests evs"
| "requests (ev # evs) = requests evs"

fun saved_usernames :: "event list \<Rightarrow> string list" where
  "saved_usernames [] = []"
| "saved_usernames (Ev_username_saved name # evs) = name # saved_usernames evs"
| "saved_usernames (ev # evs) = saved_usernames evs"

definition ok_reply :: "response \<Rightarrow> https_reply" where
  "ok_reply body = \<lparr>https_status = 0, https_body = body\<rparr>"

definition typed :: "string \<Rightarrow> string \<Rightarrow> form_answer" where
  "typed name secret = \<lparr>answer_status = 0, answer_values = [Some name, Some secret], answer_group = None\<rparr>"

definition a_round :: "response \<Rightarrow> form_answer \<Rightarrow> response \<Rightarrow> round" where
  "a_round prelogin answer submit =
     \<lparr>prelogin_reply = ok_reply prelogin, login_answer = answer, tokencode_status = 0,
      submit_reply = ok_reply submit, gateway_answer = pick_second, redirect_status = 0\<rparr>"

definition plain_prelogin :: response where
  "plain_prelogin = Xml_document (prelogin_response [])"

text \<open>
  A portal login that succeeds, the blind retry on the gateway rejected, and then a
  gateway login that succeeds.
\<close>

definition rejected_retry_rounds :: "round list" where
  "rejected_retry_rounds =
     [a_round plain_prelogin (typed ''alice'' ''secret'') (Xml_document (policy_response two_gateways)),
      a_round plain_prelogin (typed ''alice'' ''secret'') (Error_response (- EACCES)),
      a_round plain_prelogin (typed ''alice'' ''secret2'') (Xml_document (login_response example_args))]"

text \<open>
  A portal login and a gateway login with an alternative secret field, both accepted.
\<close>

definition field_session :: openconnect_info where
  "field_session = example_session\<lparr>urlpath := Some ''portal:prelogin-cookie''\<rparr>"

definition accepted_rounds :: "round list" where
  "accepted_rounds =
     [a_round plain_prelogin (typed ''alice'' ''c00kie'') (Xml_document (policy_response two_gateways)),
      a_round plain_prelogin (typed ''alice'' ''c00kie'') (Xml_document (login_response example_args))]"

lemma rejected_retry_run:
  "outcome_status (gpst_obtain_cookie id example_base64 example_session rejected_retry_rounds) = Some 0 \<and>
   requests (trace (outcome_state
     (gpst_obtain_cookie id example_base64 example_session rejected_retry_rounds))) =
     [Ev_prelogin True, Ev_submit True False, Ev_submit False True, Ev_prelogin False,
      Ev_submit False False] \<and>
   blind_retries (trace (outcome_state
     (gpst_obtain_cookie id example_base64 example_session rejected_retry_rounds))) = 1"
  by code_simp

lemma accepted_run:
  "outcome_status (gpst_obtain_cookie id example_base64 field_session accepted_rounds) = Some 0 \<and>
   saved_usernames (trace (outcome_state
     (gpst_obtain_cookie id example_base64 field_session accepted_rounds))) = [''alice'', ''alice''] \<and>
   requests (trace (outcome_state
     (gpst_obtain_cookie id example_base64 field_session accepted_rounds))) =
     [Ev_prelogin True, Ev_submit True False, Ev_prelogin False, Ev_submit False False]"
  by code_simp




subsection \<open>A rejected login\<close>

lemma nuke_clears:
  "fld \<in> set (nuke_opt_values flds) \<Longrightarrow> opt_type fld \<noteq> OC_FORM_OPT_HIDDEN \<Longrightarrow> opt_value fld = None"
  by (auto simp: nuke_opt_values_def split: if_splits)

text \<open>
  Claim C4 as it is written fails: when the gateway rejects the blindly retried
  credentials the flow does not fail. The loop goes round: it sends a new prelogin request
  to the gateway, shows the new form, submits it, and here it ends with status 0.
\<close>

theorem unauthorized_after_blind_retry_counterexample:
  "outcome_status (gpst_obtain_cookie id example_base64 example_session rejected_retry_rounds) = Some 0 \<and>
   requests (trace (outcome_state
     (gpst_obtain_cookie id example_base64 example_session rejected_retry_rounds))) =
     [Ev_prelogin True, Ev_submit True False, Ev_submit False True, Ev_prelogin False,
      Ev_submit False False] \<and>
   https_body (submit_reply (rejected_retry_rounds ! 1)) = Error_response (- EACCES)"
  using rejected_retry_run by (simp add: rejected_retry_rounds_def a_round_def ok_reply_def)

text \<open>
  Claim C4, amended. After the status \<open>-EACCES\<close> the loop clears the entered values of
  the form (every field that is not Hidden) and, if no blind retry was under way, jumps to
  \<open>got_form\<close> with that same form; if the status came right after a blind retry, it
  clears the retry flag and goes to the top of the loop, where a new prelogin request is
  sent and a new form built. In one call of \<open>gpst_obtain_cookie\<close>, whatever the
  collaborators answer and however it ends, a blind retry is armed at most once.
\<close>

theorem unauthorized_retry:
  "(form (login_ctx st) = Some frm \<and> \<not> blind_retry st \<longrightarrow>
      after_submit (- EACCES) st =
        Goto Got_form
          (st\<lparr>login_ctx := (login_ctx st)\<lparr>form := Some (frm\<lparr>opts := nuke_opt_values (opts frm)\<rparr>)\<rparr>\<rparr>)) \<and>
   (form (login_ctx st) = Some frm \<and> blind_retry st \<longrightarrow>
      after_submit (- EACCES) st =
        Goto Loop_top
          (st\<lparr>login_ctx := (login_ctx st)\<lparr>form := Some (frm\<lparr>opts := nuke_opt_values (opts frm)\<rparr>)\<rparr>,
              blind_retry := False\<rparr>)) \<and>
   (\<forall>fld \<in> set (nuke_opt_values flds). opt_type fld \<noteq> OC_FORM_OPT_HIDDEN \<longrightarrow> opt_value fld = None) \<and>
   blind_retries (trace (outcome_state (gpst_obtain_cookie urldecode base64_decode vpninfo rounds))) \<le> 1"
proof (intro conjI impI ballI)
  assume "form (login_ctx st) = Some frm \<and> \<not> blind_retry st"
  then show "after_submit (- EACCES) st =
        Goto Got_form
          (st\<lparr>login_ctx := (login_ctx st)\<lparr>form := Some (frm\<lparr>opts := nuke_opt_values (opts frm)\<rparr>)\<rparr>\<rparr>)"
    by (simp add: after_submit_def Let_def)
next
  assume "form (login_ctx st) = Some frm \<and> blind_retry st"
  then show "after_submit (- EACCES) st =
        Goto Loop_top
          (st\<lparr>login_ctx := (login_ctx st)\<lparr>form := Some (frm\<lparr>opts := nuke_opt_values (opts frm)\<rparr>)\<rparr>,
              blind_retry := False\<rparr>)"
    by (simp add: after_submit_def Let_def)
next
  fix fld assume "fld \<in> set (nuke_opt_values flds)" "opt_type fld \<noteq> OC_FORM_OPT_HIDDEN"
  then show "opt_value fld = None" by (rule nuke_clears)
next
  show "blind_retries (trace (outcome_state (gpst_obtain_cookie urldecode base64_decode vpninfo rounds))) \<le> 1"
    by (rule obtain_cookie_retries)
qed

definition filled_form :: oc_auth_form where
  "filled_form =
     \<lparr>message = ''Please enter your username and password'', auth_id = ''_login'', action = None,
      opts = [\<lparr>opt_type = OC_FORM_OPT_TEXT, opt_name = ''user'', opt_label = ''Username: '',
                opt_value = Some ''alice'', opt_choices = []\<rparr>,
              \<lparr>opt_type = OC_FORM_OPT_PASSWORD, opt_name = ''passwd'', opt_label = ''Password: '',
                opt_value = Some ''secret'', opt_choices = []\<rparr>]\<rparr>"

definition blank_form :: oc_auth_form where
  "blank_form =
     \<lparr>message = ''Please enter your username and password'', auth_id = ''_login'', action = None,
      opts = [\<lparr>opt_type = OC_FORM_OPT_TEXT, opt_name = ''user'', opt_label = ''Username: '',
                opt_value = None, opt_choices = []\<rparr>,
              \<lparr>opt_type = OC_FORM_OPT_PASSWORD, opt_name = ''passwd'', opt_label = ''Password: '',
                opt_value = None, opt_choices = []\<rparr>]\<rparr>"

definition submitted_state :: "bool \<Rightarrow> login_state" where
  "submitted_state retry =
     \<lparr>portal = False, blind_retry = retry, session = example_session,
      login_ctx = example_context\<lparr>form := Some filled_form\<rparr>, trace = []\<rparr>"

theorem unauthorized_retry_witness:
  "after_submit (- EACCES) (submitted_state False) =
     Goto Got_form ((submitted_state False)\<lparr>login_ctx := example_context\<lparr>form := Some blank_form\<rparr>\<rparr>) \<and>
   after_submit (- EACCES) (submitted_state True) =
     Goto Loop_top ((submitted_state False)\<lparr>login_ctx := example_context\<lparr>form := Some blank_form\<rparr>\<rparr>) \<and>
   blind_retries (trace (outcome_state
     (gpst_obtain_cookie id example_base64 example_session rejected_retry_rounds))) = 1"
proof -
  have f: "form (login_ctx (submitted_state b)) = Some filled_form" for b
    by (simp add: submitted_state_def)
  have n: "filled_form\<lparr>opts := nuke_opt_values (opts filled_form)\<rparr> = blank_form"
    by (simp add: filled_form_def blank_form_def nuke_opt_values_def)
  have a: "form (login_ctx (submitted_state False)) = Some filled_form \<and> \<not> blind_retry (submitted_state False)"
    by (simp add: submitted_state_def)
  have b: "form (login_ctx (submitted_state True)) = Some filled_form \<and> blind_retry (submitted_state True)"
    by (simp add: submitted_state_def)
  note t1 = unauthorized_retry[of "submitted_state False" filled_form, THEN conjunct1, rule_format, OF a]
  note t2 = unauthorized_retry[of "submitted_state True" filled_form, THEN conjunct2, THEN conjunct1,
      rule_format, OF b]
  have c: "blind_retries (trace (outcome_state
     (gpst_obtain_cookie id example_base64 example_session rejected_retry_rounds))) = 1"
    using rejected_retry_run by simp
  from t1 t2 c show ?thesis by (simp add: n submitted_state_def)
qed

subsection \<open>The username of the session\<close>

lemma saved_usernames_append: "saved_usernames (xs @ ys) = saved_usernames xs @ saved_usernames ys"
  by (induction xs rule: saved_usernames.induct) simp_all

lemma save_username_set:
  "username (login_ctx st) \<noteq> None \<Longrightarrow> save_username st = Some st"
  by (simp add: save_username_def)

lemma save_username_empty:
  "username (login_ctx st) = None \<Longrightarrow> form (login_ctx st) = Some frm \<Longrightarrow> opts frm = fld # flds \<Longrightarrow>
   opt_value fld = Some name \<Longrightarrow>
   save_username st = Some (st\<lparr>login_ctx := (login_ctx st)\<lparr>username := Some name\<rparr>,
                             trace := trace st @ [Ev_username_saved name]\<rparr>)"
  by (simp add: save_username_def)

lemma after_submit_accepted:
  assumes "save_username st = Some st1" and "result = 0 \<or> result = - EAGAIN"
  shows "username (login_ctx (flow_state (after_submit result st))) = username (login_ctx st1) \<and>
     saved_usernames (trace (flow_state (after_submit result st))) = saved_usernames (trace st1)"
  using assms
  by (auto simp: after_submit_def Let_def errno_defs saved_usernames_append)

lemma after_submit_rejected:
  "username (login_ctx (flow_state (after_submit (- EACCES) st))) = username (login_ctx st) \<and>
   trace (flow_state (after_submit (- EACCES) st)) = trace st"
  by (cases "form (login_ctx st)") (simp_all add: after_submit_def Let_def)

lemma prelogin_hidden:
  assumes "xmlnode_is_named root ''prelogin-response''"
    and "fst (parse_prelogin_xml base64_decode vpninfo root ctx) = 0"
  shows "\<exists>frm fld flds.
     form (fst (snd (snd (parse_prelogin_xml base64_decode vpninfo root ctx)))) = Some frm \<and>
     opts frm = fld # flds \<and> opt_name fld = ''user'' \<and> opt_value fld = username ctx \<and>
     opt_type fld = (if username ctx = None then OC_FORM_OPT_TEXT else OC_FORM_OPT_HIDDEN) \<and>
     username (fst (snd (snd (parse_prelogin_xml base64_decode vpninfo root ctx)))) = None"
proof -
  let ?v = "scanned base64_decode root"
  have ok: "fst (prelogin_scan base64_decode (children root) prelogin_start) = 0"
  proof (rule ccontr)
    assume "fst (prelogin_scan base64_decode (children root) prelogin_start) \<noteq> 0"
    then have "fst (parse_prelogin_xml base64_decode vpninfo root ctx) \<noteq> 0"
      using assms(1)
      by (cases "prelogin_scan base64_decode (children root) prelogin_start")
         (simp add: parse_prelogin_xml_def)
    with assms(2) show False by simp
  qed
  note p = parse_prelogin_xml_result[OF assms(1) ok, of vpninfo ctx]
  have gate: "fst (saml_gate ctx ?v) = 0"
    using assms(2) unfolding p by (simp add: Let_def split: if_splits)
  show ?thesis unfolding p
    by (simp add: Let_def gate build_login_form_def new_login_form_def user_opt_def)
qed

text \<open>
  Claim C9 as it is written fails: in a login session made of a portal login and a
  gateway login that are both accepted, \<open>ctx->username\<close> is assigned twice.
\<close>

theorem username_saved_twice_counterexample:
  "outcome_status (gpst_obtain_cookie id example_base64 field_session accepted_rounds) = Some 0 \<and>
   saved_usernames (trace (outcome_state
     (gpst_obtain_cookie id example_base64 field_session accepted_rounds))) = [''alice'', ''alice''] \<and>
   \<not> length (saved_usernames (trace (outcome_state
     (gpst_obtain_cookie id example_base64 field_session accepted_rounds)))) \<le> 1"
  using accepted_run by simp

text \<open>
  Claim C9, amended. After a submitted form that was accepted (status 0) or answered by a
  challenge (\<open>-EAGAIN\<close>), the username of the context is assigned the value of the form's
  first field if it was empty, and is left alone if it was set; after a rejection
  (\<open>-EACCES\<close>) it is never assigned. A prelogin form built while the username is set has
  its \<open>user\<close> field Hidden with that name as value, and building it empties the username
  of the context, so that it is assigned again after the next accepted form.
\<close>

theorem username_saved_when_empty:
  "(username (login_ctx st) = None \<and> form (login_ctx st) = Some frm \<and> opts frm = fld # flds \<and>
      opt_value fld = Some name \<and> (result = 0 \<or> result = - EAGAIN) \<longrightarrow>
      username (login_ctx (flow_state (after_submit result st))) = Some name \<and>
      saved_usernames (trace (flow_state (after_submit result st))) =
        saved_usernames (trace st) @ [name]) \<and>
   (username (login_ctx st) \<noteq> None \<and> (result = 0 \<or> result = - EAGAIN) \<longrightarrow>
      username (login_ctx (flow_state (after_submit result st))) = username (login_ctx st) \<and>
      saved_usernames (trace (flow_state (after_submit result st))) = saved_usernames (trace st)) \<and>
   (username (login_ctx (flow_state (after_submit (- EACCES) st))) = username (login_ctx st) \<and>
    saved_usernames (trace (flow_state (after_submit (- EACCES) st))) = saved_usernames (trace st)) \<and>
   (xmlnode_is_named root ''prelogin-response'' \<and>
    fst (parse_prelogin_xml base64_decode vpninfo root ctx) = 0 \<and> username ctx = Some name \<longrightarrow>
      (\<exists>shown first others.
         form (fst (snd (snd (parse_prelogin_xml base64_decode vpninfo root ctx)))) = Some shown \<and>
         opts shown = first # others \<and> opt_name first = ''user'' \<and>
         opt_type first = OC_FORM_OPT_HIDDEN \<and> opt_value first = Some name \<and>
         username (fst (snd (snd (parse_prelogin_xml base64_decode vpninfo root ctx)))) = None))"
proof (intro conjI impI)
  assume a: "username (login_ctx st) = None \<and> form (login_ctx st) = Some frm \<and> opts frm = fld # flds \<and>
      opt_value fld = Some name \<and> (result = 0 \<or> result = - EAGAIN)"
  then have s: "save_username st = Some (st\<lparr>login_ctx := (login_ctx st)\<lparr>username := Some name\<rparr>,
                             trace := trace st @ [Ev_username_saved name]\<rparr>)"
    using save_username_empty by blast
  from a have r: "result = 0 \<or> result = - EAGAIN" by simp
  note t = after_submit_accepted[OF s r]
  show "username (login_ctx (flow_state (after_submit result st))) = Some name"
    using t by simp
  show "saved_usernames (trace (flow_state (after_submit result st))) =
        saved_usernames (trace st) @ [name]"
    using t by (simp add: saved_usernames_append)
next
  assume a: "username (login_ctx st) \<noteq> None \<and> (result = 0 \<or> result = - EAGAIN)"
  then have s: "save_username st = Some st" using save_username_set by blast
  from a have r: "result = 0 \<or> result = - EAGAIN" by simp
  note t = after_submit_accepted[OF s r]
  show "username (login_ctx (flow_state (after_submit result st))) = username (login_ctx st)"
    using t by simp
  show "saved_usernames (trace (flow_state (after_submit result st))) = saved_usernames (trace st)"
    using t by simp
next
  show "username (login_ctx (flow_state (after_submit (- EACCES) st))) = username (login_ctx st)"
    using after_submit_rejected[of st] by simp
  show "saved_usernames (trace (flow_state (after_submit (- EACCES) st))) = saved_usernames (trace st)"
    using after_submit_rejected[of st] by simp
next
  assume a: "xmlnode_is_named root ''prelogin-response'' \<and>
    fst (parse_prelogin_xml base64_decode vpninfo root ctx) = 0 \<and> username ctx = Some name"
  then have n: "xmlnode_is_named root ''prelogin-response''"
    and z: "fst (parse_prelogin_xml base64_decode vpninfo root ctx) = 0"
    and u: "username ctx = Some name" by simp_all
  from prelogin_hidden[OF n z] u
  show "\<exists>shown first others.
         form (fst (snd (snd (parse_prelogin_xml base64_decode vpninfo root ctx)))) = Some shown \<and>
         opts shown = first # others \<and> opt_name first = ''user'' \<and>
         opt_type first = OC_FORM_OPT_HIDDEN \<and> opt_value first = Some name \<and>
         username (fst (snd (snd (parse_prelogin_xml base64_decode vpninfo root ctx)))) = None"
    by auto
qed


definition known_user_context :: login_context where
  "known_user_context = example_context\<lparr>username := Some ''alice''\<rparr>"

theorem username_saved_when_empty_witness:
  "username (login_ctx (flow_state (after_submit 0 (submitted_state False)))) = Some ''alice'' \<and>
   saved_usernames (trace (flow_state (after_submit 0 (submitted_state False)))) = [''alice''] \<and>
   (\<exists>shown first others.
      form (fst (snd (snd (parse_prelogin_xml example_base64 example_session (prelogin_response [])
        known_user_context)))) = Some shown \<and>
      opts shown = first # others \<and> opt_name first = ''user'' \<and>
      opt_type first = OC_FORM_OPT_HIDDEN \<and> opt_value first = Some ''alice'' \<and>
      username (fst (snd (snd (parse_prelogin_xml example_base64 example_session (prelogin_response [])
        known_user_context)))) = None)"
proof -
  let ?fld = "\<lparr>opt_type = OC_FORM_OPT_TEXT, opt_name = ''user'', opt_label = ''Username: '',
                opt_value = Some ''alice'', opt_choices = []\<rparr>"
  let ?flds = "[\<lparr>opt_type = OC_FORM_OPT_PASSWORD, opt_name = ''passwd'', opt_label = ''Password: '',
                opt_value = Some ''secret'', opt_choices = []\<rparr>]"
  have a: "username (login_ctx (submitted_state False)) = None \<and>
      form (login_ctx (submitted_state False)) = Some filled_form \<and>
      opts filled_form = ?fld # ?flds \<and> opt_value ?fld = Some ''alice'' \<and>
      ((0::int) = 0 \<or> (0::int) = - EAGAIN)"
    by (simp add: submitted_state_def example_context_def filled_form_def)
  have b: "xmlnode_is_named (prelogin_response []) ''prelogin-response'' \<and>
      fst (parse_prelogin_xml example_base64 example_session (prelogin_response []) known_user_context) = 0 \<and>
      username known_user_context = Some ''alice''"
    by (simp add: prelogin_response_def xmlnode_is_named_def parse_prelogin_xml_def
        prelogin_start_def saml_gate_def known_user_context_def)
  have t0: "trace (submitted_state False) = []" by (simp add: submitted_state_def)
  note t = username_saved_when_empty[of "submitted_state False" filled_form ?fld ?flds "''alice''" 0
      "prelogin_response []" example_base64 example_session known_user_context]
  note t1 = t[THEN conjunct1, rule_format, OF a]
  note t4 = t[THEN conjunct2, THEN conjunct2, THEN conjunct2, rule_format, OF b]
  from t1 t4 show ?thesis by (simp add: t0)
qed


end
